theory Spec2Isabelle
  imports Complex_Main "HOL-Library.Multiset" "HOL-Library.Log_Nat"
begin

section \<open>Progress documents (src/models/Progress.ts)\<close>

text \<open>
  An ObjectId is modelled by its string form, which is what the source compares
  (\<open>lecture.lectureId.toString() === lectureId\<close>). A \<open>Date\<close> is a number of
  milliseconds; an absent date (\<open>undefined\<close>) is \<open>None\<close>. Counters are array lengths
  and sums of them, hence naturals. \<open>watchTime\<close> is whatever number the request carries.
\<close>

type_synonym objectId = string
type_synonym date = nat

record lectureProgress =
  lp_lectureId :: objectId
  lp_completedAt :: "date option"
  lp_watchTime :: rat
  lp_isCompleted :: bool

record moduleProgress =
  mp_moduleId :: objectId
  mp_lectures :: "lectureProgress list"
  mp_completedLectures :: nat
  mp_totalLectures :: nat
  mp_isCompleted :: bool
  mp_completedAt :: "date option"

record progress =
  p_userId :: objectId
  p_courseId :: objectId
  p_modules :: "moduleProgress list"
  p_completedModules :: nat
  p_totalModules :: nat
  p_completedLectures :: nat
  p_totalLectures :: nat
  p_progressPercentage :: int
  p_isCompleted :: bool
  p_completedAt :: "date option"
  p_lastAccessedAt :: date

subsection \<open>getNextUnlockedLecture\<close>

text \<open>
  The method has three places where it returns a lecture id. The model keeps them apart,
  so that a statement can say which one was taken; the method's value is the id alone.
\<close>

datatype nextSite =
    FirstOfModule objectId
  | AfterCompleted objectId
  | PreviousIncomplete objectId

fun siteId :: "nextSite \<Rightarrow> objectId" where
  "siteId (FirstOfModule l) = l"
| "siteId (AfterCompleted l) = l"
| "siteId (PreviousIncomplete l) = l"

text \<open>The inner loop \<open>for (let i = 0; i < module.lectures.length; i++)\<close>, from index \<open>i\<close>.\<close>

function scanLectures :: "lectureProgress list \<Rightarrow> nat \<Rightarrow> nextSite option" where
  "scanLectures lectures i =
     (if i < length lectures then
        (let lecture = lectures ! i in
         if \<not> lp_isCompleted lecture then
           (if i = 0 then Some (FirstOfModule (lp_lectureId lecture))
            else
              (let previousLecture = lectures ! (i - 1) in
               if lp_isCompleted previousLecture
               then Some (AfterCompleted (lp_lectureId lecture))
               else Some (PreviousIncomplete (lp_lectureId previousLecture))))
         else scanLectures lectures (i + 1))
      else None)"
  by pat_completeness auto
termination
  by (relation "measure (\<lambda>(lectures, i). length lectures - i)") auto

declare scanLectures.simps [simp del]

text \<open>The outer loop \<open>for (const module of this.modules)\<close>.\<close>

fun scanModules :: "moduleProgress list \<Rightarrow> nextSite option" where
  "scanModules [] = None"
| "scanModules (m # ms) =
     (case scanLectures (mp_lectures m) 0 of
        Some site \<Rightarrow> Some site
      | None \<Rightarrow> scanModules ms)"

definition nextUnlockedSite :: "progress \<Rightarrow> nextSite option" where
  "nextUnlockedSite this = scanModules (p_modules this)"

definition getNextUnlockedLecture :: "progress \<Rightarrow> objectId option" where
  "getNextUnlockedLecture this = map_option siteId (nextUnlockedSite this)"

text \<open>
  What the specification says the method returns: the first lecture that is not completed,
  in the order modules-then-lectures.
\<close>

definition flattened :: "progress \<Rightarrow> lectureProgress list" where
  "flattened this = concat (map mp_lectures (p_modules this))"

definition firstIncomplete :: "progress \<Rightarrow> objectId option" where
  "firstIncomplete this =
     map_option lp_lectureId (find (\<lambda>l. \<not> lp_isCompleted l) (flattened this))"

subsection \<open>Numbers: the percentage expression\<close>

text \<open>
  \<open>Math.round((this.completedLectures / this.totalLectures) * 100)\<close> is evaluated on
  IEEE 754 binary64 numbers: the quotient is rounded to the nearest double (ties to even),
  so is the product, and \<open>Math.round\<close> returns the nearest integer, a tie going up.
  Doubles are modelled as the rationals they denote; the values of the expression stay in
  the normal range (counters are array lengths), so overflow, subnormals and NaN do not
  arise and are not modelled.
\<close>

definition pow2 :: "int \<Rightarrow> rat" where
  "pow2 e = (if 0 \<le> e then 2 ^ nat e else 1 / 2 ^ nat (- e))"

text \<open>The exponent \<open>e\<close> of a positive rational: \<open>2^e \<le> x < 2^(e+1)\<close>.\<close>

definition binade :: "rat \<Rightarrow> int" where
  "binade x =
     (let e0 = bitlen (fst (quotient_of x)) - bitlen (snd (quotient_of x))
      in if pow2 e0 \<le> x then e0 else e0 - 1)"

definition roundTiesToEven :: "rat \<Rightarrow> int" where
  "roundTiesToEven m =
     (let f = \<lfloor>m\<rfloor>; d = m - of_int f
      in if d < 1 / 2 then f
         else if 1 / 2 < d then f + 1
         else if even f then f else f + 1)"

text \<open>The double nearest to a rational, 53 bits of significand.\<close>

definition toDouble :: "rat \<Rightarrow> rat" where
  "toDouble x =
     (if x = 0 then 0
      else
        (let y = \<bar>x\<bar>; ulp = pow2 (binade y - 52)
         in sgn x * of_int (roundTiesToEven (y / ulp)) * ulp))"

definition js_div :: "rat \<Rightarrow> rat \<Rightarrow> rat" where
  "js_div x y = toDouble (x / y)"

definition js_mul :: "rat \<Rightarrow> rat \<Rightarrow> rat" where
  "js_mul x y = toDouble (x * y)"

definition Math_round :: "rat \<Rightarrow> int" where
  "Math_round x = \<lfloor>x + 1 / 2\<rfloor>"

definition percentage :: "nat \<Rightarrow> nat \<Rightarrow> int" where
  "percentage completedLectures totalLectures =
     (if totalLectures > 0
      then Math_round (js_mul (js_div (of_nat completedLectures) (of_nat totalLectures)) 100)
      else 0)"

subsection \<open>updateLectureProgress\<close>

text \<open>
  The errors the modelled code throws, one constructor for each message:
  "Lecture not found in progress", "Lecture not found in module",
  \<open>ERROR_MESSAGES.COURSE_NOT_FOUND\<close>, \<open>ERROR_MESSAGES.MODULE_NOT_FOUND\<close>,
  "Some modules do not belong to this course", the database's duplicate-key error, and the
  library's \<open>ValidationError\<close> with the paths that failed their validators.
\<close>

datatype error =
    LectureNotFoundInProgress
  | LectureNotFoundInModule
  | CourseNotFound
  | ModuleNotFound
  | ModulesNotInCourse
  | DuplicateKey
  | ValidationError "string list"

text \<open>\<open>Array.prototype.findIndex\<close>; the result \<open>-1\<close> is \<open>None\<close>.\<close>

fun findIndex :: "('a \<Rightarrow> bool) \<Rightarrow> 'a list \<Rightarrow> nat option" where
  "findIndex P [] = None"
| "findIndex P (x # xs) = (if P x then Some 0 else map_option Suc (findIndex P xs))"

text \<open>"Update lecture progress": the two optional fields of the request.\<close>

definition updateLecture ::
  "date \<Rightarrow> rat option \<Rightarrow> bool option \<Rightarrow> lectureProgress \<Rightarrow> lectureProgress" where
  "updateLecture now watchTime isCompleted lecture =
     (let lecture1 =
            (case watchTime of
               None \<Rightarrow> lecture
             | Some w \<Rightarrow> lecture\<lparr>lp_watchTime := w\<rparr>)
      in case isCompleted of
           None \<Rightarrow> lecture1
         | Some c \<Rightarrow>
             (let lecture2 = lecture1\<lparr>lp_isCompleted := c\<rparr>
              in if c \<and> lp_completedAt lecture2 = None
                 then lecture2\<lparr>lp_completedAt := Some now\<rparr>
                 else if \<not> c then lecture2\<lparr>lp_completedAt := None\<rparr>
                 else lecture2))"

text \<open>"Recalculate module progress", on the module whose lecture list was just changed.\<close>

definition recalculateModule :: "date \<Rightarrow> moduleProgress \<Rightarrow> moduleProgress" where
  "recalculateModule now m =
     (let completedLectures = length (filter lp_isCompleted (mp_lectures m));
          m1 = m\<lparr>mp_completedLectures := completedLectures,
                  mp_isCompleted := (completedLectures = mp_totalLectures m)\<rparr>
      in if mp_isCompleted m1 \<and> mp_completedAt m1 = None
         then m1\<lparr>mp_completedAt := Some now\<rparr>
         else if \<not> mp_isCompleted m1 then m1\<lparr>mp_completedAt := None\<rparr>
         else m1)"

text \<open>"Recalculate overall progress", and the access time.\<close>

definition recalculateOverall :: "date \<Rightarrow> progress \<Rightarrow> progress" where
  "recalculateOverall now this =
     (let t1 = this\<lparr>p_completedLectures :=
                       foldl (\<lambda>total md. total + mp_completedLectures md) 0 (p_modules this)\<rparr>;
          t2 = t1\<lparr>p_completedModules := length (filter mp_isCompleted (p_modules t1))\<rparr>;
          t3 = t2\<lparr>p_progressPercentage :=
                     percentage (p_completedLectures t2) (p_totalLectures t2)\<rparr>;
          t4 = t3\<lparr>p_isCompleted := (p_completedModules t3 = p_totalModules t3)\<rparr>;
          t5 = (if p_isCompleted t4 \<and> p_completedAt t4 = None
                then t4\<lparr>p_completedAt := Some now\<rparr>
                else if \<not> p_isCompleted t4 then t4\<lparr>p_completedAt := None\<rparr>
                else t4)
      in t5\<lparr>p_lastAccessedAt := now\<rparr>)"

text \<open>
  The method. It returns the outcome together with the document as the call leaves it:
  a \<open>throw\<close> is \<open>Inl\<close>, and the document beside it shows what had been assigned by then.
  \<open>now\<close> is the value of \<open>new Date()\<close> during the call.
\<close>

definition updateLectureProgress ::
  "date \<Rightarrow> string \<Rightarrow> rat option \<Rightarrow> bool option \<Rightarrow> progress \<Rightarrow> (error + unit) \<times> progress" where
  "updateLectureProgress now lectureId watchTime isCompleted this =
     (case findIndex (\<lambda>md. list_ex (\<lambda>lecture. lp_lectureId lecture = lectureId) (mp_lectures md))
             (p_modules this) of
        None \<Rightarrow> (Inl LectureNotFoundInProgress, this)
      | Some moduleIndex \<Rightarrow>
          (let md = p_modules this ! moduleIndex
           in case findIndex (\<lambda>lecture. lp_lectureId lecture = lectureId) (mp_lectures md) of
                None \<Rightarrow> (Inl LectureNotFoundInModule, this)
              | Some lectureIndex \<Rightarrow>
                  (let lecture = updateLecture now watchTime isCompleted
                                   (mp_lectures md ! lectureIndex);
                       md1 = md\<lparr>mp_lectures := (mp_lectures md)[lectureIndex := lecture]\<rparr>;
                       md2 = recalculateModule now md1;
                       this1 = this\<lparr>p_modules := (p_modules this)[moduleIndex := md2]\<rparr>
                   in (Inr (), recalculateOverall now this1))))"

section \<open>Content documents (models Course, Module, Lecture)\<close>

text \<open>
  Only the fields the modelled operations read or write are kept. Durations are
  \<open>Number\<close>s that the database adds up; the model leaves their type open (any type
  with a zero and an addition). Where a new Module or Lecture document is saved, the
  validators and setters its schema declares for these fields (\<open>trim\<close>, \<open>required\<close>,
  \<open>min\<close>, \<open>maxlength\<close>) are part of the model. The \<open>min\<close>/\<open>max\<close> bounds of the Progress
  schema and the \<open>createdAt\<close>/\<open>updatedAt\<close> stamps the library maintains are not.
\<close>

record pdfNote =
  pn_fileName :: string
  pn_originalName :: string
  pn_filePath :: string
  pn_fileSize :: nat
  pn_uploadedAt :: date

record 'n lectureDoc =
  l_id :: objectId
  l_title :: string
  l_videoUrl :: string
  l_duration :: 'n
  l_moduleId :: objectId
  l_courseId :: objectId
  l_lectureNumber :: nat
  l_pdfNotes :: "pdfNote list"
  l_isActive :: bool

record 'n moduleDoc =
  m_id :: objectId
  m_title :: string
  m_moduleNumber :: nat
  m_courseId :: objectId
  m_isActive :: bool
  m_lectureCount :: nat
  m_totalDuration :: 'n

record 'n courseDoc =
  c_id :: objectId
  c_isActive :: bool
  c_totalModules :: nat
  c_totalLectures :: nat
  c_totalDuration :: 'n

text \<open>
  The three collections, each in its natural (insertion) order. The module schema declares
  a unique index on \<open>(courseId, moduleNumber)\<close>; \<open>db_indexesEnforced\<close> says whether the
  database has built it and rejects a write that would break it.
\<close>

record 'n db =
  db_courses :: "'n courseDoc list"
  db_modules :: "'n moduleDoc list"
  db_lectures :: "'n lectureDoc list"
  db_indexesEnforced :: bool

subsection \<open>initializeForCourse\<close>

text \<open>
  \<open>existing\<close> is the progress document the user already has for the course, if any:
  \<open>findOneAndUpdate\<close> with \<open>upsert\<close> overwrites the listed fields and keeps the others.
\<close>

definition initializeForCourse ::
  "date \<Rightarrow> objectId \<Rightarrow> objectId \<Rightarrow> progress option \<Rightarrow> 'n db \<Rightarrow> progress" where
  "initializeForCourse now userId courseId existing db =
     (let mds = sort_key m_moduleNumber
                  (filter (\<lambda>m. m_courseId m = courseId \<and> m_isActive m) (db_modules db));
          lecs = sort_key l_lectureNumber
                   (filter (\<lambda>l. l_courseId l = courseId \<and> l_isActive l) (db_lectures db));
          moduleProgress =
            map (\<lambda>md.
                   (let moduleLectures = filter (\<lambda>lecture. l_moduleId lecture = m_id md) lecs
                    in \<lparr>mp_moduleId = m_id md,
                        mp_lectures =
                          map (\<lambda>lecture. \<lparr>lp_lectureId = l_id lecture, lp_completedAt = None,
                                           lp_watchTime = 0, lp_isCompleted = False\<rparr>)
                            moduleLectures,
                        mp_completedLectures = 0,
                        mp_totalLectures = length moduleLectures,
                        mp_isCompleted = False,
                        mp_completedAt = None\<rparr>))
              mds;
          totalLectures = foldl (\<lambda>total mp. total + mp_totalLectures mp) 0 moduleProgress
      in \<lparr>p_userId = userId, p_courseId = courseId,
          p_modules = moduleProgress,
          p_completedModules = 0,
          p_totalModules = length mds,
          p_completedLectures = 0,
          p_totalLectures = totalLectures,
          p_progressPercentage = 0,
          p_isCompleted = False,
          p_completedAt = (case existing of None \<Rightarrow> None | Some old \<Rightarrow> p_completedAt old),
          p_lastAccessedAt = now\<rparr>)"

text \<open>
  A sequence of \<open>updateLectureProgress\<close> calls on one document; a call that throws
  leaves the document as the call left it.
\<close>

record updateCall =
  u_now :: date
  u_lectureId :: string
  u_watchTime :: "rat option"
  u_isCompleted :: "bool option"

fun applyCalls :: "updateCall list \<Rightarrow> progress \<Rightarrow> progress" where
  "applyCalls [] this = this"
| "applyCalls (c # cs) this =
     applyCalls cs
       (snd (updateLectureProgress (u_now c) (u_lectureId c) (u_watchTime c) (u_isCompleted c) this))"

subsection \<open>isLectureUnlocked\<close>

text \<open>The inner loop \<open>for (let j = 0; j <= i; j++)\<close>: is one of the lectures 0..i the next unlocked one?\<close>

definition nextAmongFirst :: "lectureProgress list \<Rightarrow> nat \<Rightarrow> objectId \<Rightarrow> bool" where
  "nextAmongFirst lecs i nextUnlocked =
     list_ex (\<lambda>l. lp_lectureId l = nextUnlocked) (take (i + 1) lecs)"

text \<open>The loop over one module's lectures: \<open>Some\<close> is a \<open>return\<close>, \<open>None\<close> falls out of the loop.\<close>

function findInModule ::
  "lectureProgress list \<Rightarrow> nat \<Rightarrow> string \<Rightarrow> objectId \<Rightarrow> bool option" where
  "findInModule lecs i lectureId nextUnlocked =
     (if i < length lecs then
        (let lecture = lecs ! i in
         if lp_lectureId lecture = lectureId then
           (if nextAmongFirst lecs i nextUnlocked then Some True
            else Some (lp_isCompleted lecture))
         else findInModule lecs (i + 1) lectureId nextUnlocked)
      else None)"
  by pat_completeness auto
termination
  by (relation "measure (\<lambda>(lecs, i, lectureId, nextUnlocked). length lecs - i)") auto

declare findInModule.simps [simp del]

fun findInModules :: "moduleProgress list \<Rightarrow> string \<Rightarrow> objectId \<Rightarrow> bool" where
  "findInModules [] lectureId nextUnlocked = False"
| "findInModules (m # ms) lectureId nextUnlocked =
     (case findInModule (mp_lectures m) 0 lectureId nextUnlocked of
        Some r \<Rightarrow> r
      | None \<Rightarrow> findInModules ms lectureId nextUnlocked)"

definition isLectureUnlocked :: "string \<Rightarrow> progress \<Rightarrow> bool" where
  "isLectureUnlocked lectureId this =
     (case getNextUnlockedLecture this of
        None \<Rightarrow> True
      | Some nextUnlocked \<Rightarrow> findInModules (p_modules this) lectureId nextUnlocked)"

subsection \<open>Sequential order of a document\<close>

text \<open>
  No completed lecture comes after one that is not completed, in the order
  modules-then-lectures: the completion flags are some \<open>True\<close>s followed by \<open>False\<close>s.
\<close>

fun completedPrefix :: "bool list \<Rightarrow> bool" where
  "completedPrefix [] = True"
| "completedPrefix (c # cs) = (if c then completedPrefix cs else list_all (\<lambda>b. \<not> b) cs)"

definition sequentialOrder :: "progress \<Rightarrow> bool" where
  "sequentialOrder this = completedPrefix (map lp_isCompleted (flattened this))"

text \<open>
  A sequence of calls that follows the unlock order: each call leaves \<open>isCompleted\<close>
  unset, or marks completed the lecture \<open>getNextUnlockedLecture\<close> returns on the
  document the call is applied to.
\<close>

fun followsUnlockOrder :: "updateCall list \<Rightarrow> progress \<Rightarrow> bool" where
  "followsUnlockOrder [] this = True"
| "followsUnlockOrder (c # cs) this =
     ((u_isCompleted c = None
       \<or> (u_isCompleted c = Some True \<and> getNextUnlockedLecture this = Some (u_lectureId c)))
      \<and> followsUnlockOrder cs
           (snd (updateLectureProgress (u_now c) (u_lectureId c) (u_watchTime c) (u_isCompleted c)
                   this)))"

section \<open>Statistics (Course.calculateStats, Module.calculateLectureStats)\<close>

record 'n lectureStats =
  ls_lectureCount :: nat
  ls_totalDuration :: 'n

record 'n courseStats =
  cs_totalModules :: nat
  cs_totalLectures :: nat
  cs_totalDuration :: 'n

text \<open>The \<open>$sum\<close> of the durations of the matched lectures.\<close>

definition sumDuration :: "('n::{zero,plus}) lectureDoc list \<Rightarrow> 'n" where
  "sumDuration ls = foldl (\<lambda>total l. total + l_duration l) 0 ls"

text \<open>
  \<open>calculateStats\<close> on the course document with the given id. The aggregation returns
  no group when no lecture matches, and the code then takes zeros. \<open>this.save()\<close> writes
  the three counters to the stored course.
\<close>

definition calculateStats :: "objectId \<Rightarrow> ('n::{zero,plus}) db \<Rightarrow> 'n courseStats \<times> 'n db" where
  "calculateStats courseId db =
     (let totalModules =
            length (filter (\<lambda>m. m_courseId m = courseId \<and> m_isActive m) (db_modules db));
          matched = filter (\<lambda>l. l_courseId l = courseId \<and> l_isActive l) (db_lectures db);
          stats = (case matched of
                     [] \<Rightarrow> \<lparr>cs_totalModules = totalModules, cs_totalLectures = 0,
                             cs_totalDuration = 0\<rparr>
                   | _ # _ \<Rightarrow> \<lparr>cs_totalModules = totalModules,
                                cs_totalLectures = length matched,
                                cs_totalDuration = sumDuration matched\<rparr>)
      in (stats,
          db\<lparr>db_courses :=
               map (\<lambda>c. if c_id c = courseId
                         then c\<lparr>c_totalModules := totalModules,
                                c_totalLectures := cs_totalLectures stats,
                                c_totalDuration := cs_totalDuration stats\<rparr>
                         else c)
                 (db_courses db)\<rparr>))"

text \<open>The module schema's \<open>post('save')\<close> hook: recompute the owning course, if it exists.\<close>

definition modulePostSave :: "objectId \<Rightarrow> ('n::{zero,plus}) db \<Rightarrow> 'n db" where
  "modulePostSave courseId db =
     (case find (\<lambda>c. c_id c = courseId) (db_courses db) of
        None \<Rightarrow> db
      | Some course \<Rightarrow> snd (calculateStats (c_id course) db))"

text \<open>
  \<open>calculateLectureStats\<close> on a module document \<open>this\<close>: aggregate, assign the two
  counters, \<open>save\<close> (which runs the module's post-save hook), return the aggregate.
\<close>

definition calculateLectureStats ::
  "('n::{zero,plus}) moduleDoc \<Rightarrow> 'n db \<Rightarrow> 'n lectureStats \<times> 'n db" where
  "calculateLectureStats this db =
     (let matched = filter (\<lambda>l. l_moduleId l = m_id this \<and> l_isActive l) (db_lectures db);
          lectureStats = (case matched of
                            [] \<Rightarrow> \<lparr>ls_lectureCount = 0, ls_totalDuration = 0\<rparr>
                          | _ # _ \<Rightarrow> \<lparr>ls_lectureCount = length matched,
                                       ls_totalDuration = sumDuration matched\<rparr>);
          db1 = db\<lparr>db_modules :=
                     map (\<lambda>m. if m_id m = m_id this
                               then m\<lparr>m_lectureCount := ls_lectureCount lectureStats,
                                      m_totalDuration := ls_totalDuration lectureStats\<rparr>
                               else m)
                       (db_modules db)\<rparr>
      in (lectureStats, modulePostSave (m_courseId this) db1))"

text \<open>The lecture schema's \<open>post('save')\<close> hook: recompute the owning module, if it exists.\<close>

definition lecturePostSave :: "objectId \<Rightarrow> ('n::{zero,plus}) db \<Rightarrow> 'n db" where
  "lecturePostSave moduleId db =
     (case find (\<lambda>m. m_id m = moduleId) (db_modules db) of
        None \<Rightarrow> db
      | Some md \<Rightarrow> snd (calculateLectureStats md db))"

section \<open>ModuleService.reorderModules and its controller\<close>

text \<open>
  \<open>Module.findByIdAndUpdate(id, { moduleNumber: n }, { new: true })\<close>: \<open>null\<close> when no
  module has the id; a duplicate-key error when the unique index is enforced and another
  module of the same course already has the number; else the updated module.
\<close>

definition updateModuleNumber ::
  "objectId \<Rightarrow> nat \<Rightarrow> 'n db \<Rightarrow> (error + 'n moduleDoc option) \<times> 'n db" where
  "updateModuleNumber moduleId n db =
     (case find (\<lambda>m. m_id m = moduleId) (db_modules db) of
        None \<Rightarrow> (Inr None, db)
      | Some m \<Rightarrow>
          if db_indexesEnforced db
             \<and> list_ex (\<lambda>m'. m_id m' \<noteq> moduleId \<and> m_courseId m' = m_courseId m
                              \<and> m_moduleNumber m' = n) (db_modules db)
          then (Inl DuplicateKey, db)
          else (Inr (Some (m\<lparr>m_moduleNumber := n\<rparr>)),
                db\<lparr>db_modules :=
                     map (\<lambda>m'. if m_id m' = moduleId then m'\<lparr>m_moduleNumber := n\<rparr> else m')
                       (db_modules db)\<rparr>))"

text \<open>
  The loop \<open>for (let i = 0; i < moduleIds.length; i++)\<close>, from index \<open>i\<close> with the ids still
  to do. An error leaves the loop with the writes made so far in place.
\<close>

fun reorderLoop ::
  "objectId list \<Rightarrow> nat \<Rightarrow> 'n moduleDoc list \<Rightarrow> 'n db \<Rightarrow> (error + 'n moduleDoc list) \<times> 'n db" where
  "reorderLoop [] i updatedModules db = (Inr updatedModules, db)"
| "reorderLoop (moduleId # rest) i updatedModules db =
     (case updateModuleNumber moduleId (i + 1) db of
        (Inl e, db') \<Rightarrow> (Inl e, db')
      | (Inr None, db') \<Rightarrow> reorderLoop rest (i + 1) updatedModules db'
      | (Inr (Some md), db') \<Rightarrow> reorderLoop rest (i + 1) (updatedModules @ [md]) db')"

definition reorderModules ::
  "objectId \<Rightarrow> objectId list \<Rightarrow> 'n db \<Rightarrow> (error + 'n moduleDoc list) \<times> 'n db" where
  "reorderModules courseId moduleIds db =
     (case find (\<lambda>c. c_id c = courseId) (db_courses db) of
        None \<Rightarrow> (Inl CourseNotFound, db)
      | Some course \<Rightarrow>
          (let mds = filter (\<lambda>m. m_id m \<in> set moduleIds \<and> m_courseId m = courseId)
                       (db_modules db)
           in if length mds \<noteq> length moduleIds then (Inl ModulesNotInCourse, db)
              else reorderLoop moduleIds 0 [] db))"

text \<open>
  The controller. \<open>HTTP_STATUS\<close> and \<open>ERROR_MESSAGES\<close> come from a file that is not among
  the sources; only the names of their members are used. The request is reduced to
  whether \<open>req.user\<close> is set, the \<open>courseId\<close> parameter and the \<open>moduleIds\<close> array.
\<close>

datatype httpStatus = OK | BAD_REQUEST | UNAUTHORIZED

datatype message =
    MsgUnauthorized
  | MsgModuleIdsRequired
  | MsgReordered
  | MsgError error

datatype 'n reply =
    Reply httpStatus bool message "'n moduleDoc list"
  | Rethrown error

definition reorderModulesController ::
  "bool \<Rightarrow> objectId \<Rightarrow> objectId list \<Rightarrow> 'n db \<Rightarrow> 'n reply \<times> 'n db" where
  "reorderModulesController authenticated courseId moduleIds db =
     (if \<not> authenticated then (Reply UNAUTHORIZED False MsgUnauthorized [], db)
      else if moduleIds = [] then (Reply BAD_REQUEST False MsgModuleIdsRequired [], db)
      else
        (case reorderModules courseId moduleIds db of
           (Inr reorderedModules, db') \<Rightarrow> (Reply OK True MsgReordered reorderedModules, db')
         | (Inl e, db') \<Rightarrow>
             if e = ModulesNotInCourse \<or> e = CourseNotFound
             then (Reply BAD_REQUEST False (MsgError e) [], db')
             else (Rethrown e, db')))"

section \<open>ModuleService.duplicateModule\<close>

text \<open>\<open>findOne({ courseId }).sort({ moduleNumber: -1 })\<close>: the highest number in the course.\<close>

definition lastModuleNumber :: "objectId \<Rightarrow> 'n db \<Rightarrow> nat option" where
  "lastModuleNumber courseId db =
     (case filter (\<lambda>m. m_courseId m = courseId) (db_modules db) of
        [] \<Rightarrow> None
      | m # ms \<Rightarrow> Some (foldl max (m_moduleNumber m) (map m_moduleNumber ms)))"

text \<open>\<open>findOne({ moduleId }).sort({ lectureNumber: -1 })\<close>: the highest number in the module.\<close>

definition lastLectureNumber :: "objectId \<Rightarrow> 'n db \<Rightarrow> nat option" where
  "lastLectureNumber moduleId db =
     (case filter (\<lambda>l. l_moduleId l = moduleId) (db_lectures db) of
        [] \<Rightarrow> None
      | l # ls \<Rightarrow> Some (foldl max (l_lectureNumber l) (map l_lectureNumber ls)))"

subsection \<open>Saving a new document\<close>

text \<open>
  \<open>save\<close> of a new document runs, in this order: the library's validation of the paths
  against the schema, the schema's \<open>pre('save')\<close> hooks, the insertion (which the unique
  index can refuse), the schema's \<open>post('save')\<close> hooks. A failed validation rejects the
  \<open>save\<close> with a \<open>ValidationError\<close> before any hook runs and before anything is stored.
\<close>

text \<open>The \<open>trim\<close> setter of a string path: white space is removed at both ends.\<close>

definition isSpace :: "char \<Rightarrow> bool" where
  "isSpace c = (c \<in> set [CHR '' '', CHR 0x09, CHR 0x0A, CHR 0x0B, CHR 0x0C, CHR 0x0D])"

definition trim :: "string \<Rightarrow> string" where
  "trim s = rev (dropWhile isSpace (rev (dropWhile isSpace s)))"

text \<open>
  The paths of a new module that fail their validators, in the order of the schema:
  \<open>title\<close> is required (a string that is not empty) and has at most 100 characters;
  \<open>moduleNumber\<close> is required and at least 1. \<open>given\<close> is the number passed to the
  constructor, if any. \<open>courseId\<close> is required too, and always present in the model.
\<close>

definition moduleValidationErrors :: "'n moduleDoc \<Rightarrow> nat option \<Rightarrow> string list" where
  "moduleValidationErrors doc given =
     (if m_title doc = [] \<or> 100 < length (m_title doc) then [''title''] else [])
     @ (case given of
          None \<Rightarrow> [''moduleNumber'']
        | Some n \<Rightarrow> if n < 1 then [''moduleNumber''] else [])"

text \<open>
  \<open>save\<close> of a new module. After a validation that passed, the pre-save hook
  (\<open>if (this.isNew && !this.moduleNumber)\<close>, number it last + 1) finds a number and does
  nothing; it is kept as the source has it.
\<close>

definition saveNewModule ::
  "('n::{zero,plus}) moduleDoc \<Rightarrow> nat option \<Rightarrow> 'n db \<Rightarrow> (error + 'n moduleDoc) \<times> 'n db" where
  "saveNewModule doc given db =
     (let doc1 = doc\<lparr>m_title := trim (m_title doc)\<rparr>;
          errors = moduleValidationErrors doc1 given
      in if errors \<noteq> [] then (Inl (ValidationError errors), db)
         else
           (let n = (if given = None \<or> given = Some 0
                     then (case lastModuleNumber (m_courseId doc1) db of
                             Some k \<Rightarrow> k + 1
                           | None \<Rightarrow> 1)
                     else the given);
                doc' = doc1\<lparr>m_moduleNumber := n\<rparr>
            in if db_indexesEnforced db
                  \<and> list_ex (\<lambda>m. m_courseId m = m_courseId doc' \<and> m_moduleNumber m = n)
                       (db_modules db)
               then (Inl DuplicateKey, db)
               else (Inr doc',
                     modulePostSave (m_courseId doc')
                       (db\<lparr>db_modules := db_modules db @ [doc']\<rparr>))))"

text \<open>
  The paths of a new lecture that fail their validators: \<open>title\<close> (required, at most 100
  characters), \<open>videoUrl\<close> (required), \<open>duration\<close> (at least 1), \<open>lectureNumber\<close>
  (required, at least 1), and the required strings of each PDF note.
\<close>

definition lectureValidationErrors ::
  "('n::{one,ord}) lectureDoc \<Rightarrow> nat option \<Rightarrow> string list" where
  "lectureValidationErrors doc given =
     (if l_title doc = [] \<or> 100 < length (l_title doc) then [''title''] else [])
     @ (if l_videoUrl doc = [] then [''videoUrl''] else [])
     @ (if l_duration doc < 1 then [''duration''] else [])
     @ (case given of
          None \<Rightarrow> [''lectureNumber'']
        | Some n \<Rightarrow> if n < 1 then [''lectureNumber''] else [])
     @ (if list_ex (\<lambda>note. pn_fileName note = [] \<or> pn_originalName note = []
                              \<or> pn_filePath note = []) (l_pdfNotes doc)
        then [''pdfNotes''] else [])"

text \<open>
  \<open>save\<close> of a new lecture. The pre-save hook that numbers a lecture saved without a
  number (\<open>if (this.isNew && !this.lectureNumber)\<close>) comes after the validation, which
  has already rejected such a lecture.
\<close>

definition saveNewLecture ::
  "('n::{zero,one,plus,ord}) lectureDoc \<Rightarrow> nat option \<Rightarrow> 'n db
     \<Rightarrow> (error + 'n lectureDoc) \<times> 'n db" where
  "saveNewLecture doc given db =
     (let doc1 = doc\<lparr>l_title := trim (l_title doc), l_videoUrl := trim (l_videoUrl doc)\<rparr>;
          errors = lectureValidationErrors doc1 given
      in if errors \<noteq> [] then (Inl (ValidationError errors), db)
         else
           (let n = (if given = None \<or> given = Some 0
                     then (case lastLectureNumber (l_moduleId doc1) db of
                             Some k \<Rightarrow> k + 1
                           | None \<Rightarrow> 1)
                     else the given);
                doc' = doc1\<lparr>l_lectureNumber := n\<rparr>
            in if db_indexesEnforced db
                  \<and> list_ex (\<lambda>l. l_moduleId l = l_moduleId doc' \<and> l_lectureNumber l = n)
                       (db_lectures db)
               then (Inl DuplicateKey, db)
               else (Inr doc',
                     lecturePostSave (l_moduleId doc')
                       (db\<lparr>db_lectures := db_lectures db @ [doc']\<rparr>))))"

subsection \<open>duplicateModule\<close>

text \<open>
  The loop \<open>for (const lecture of originalLectures)\<close>. \<open>newId k\<close> is the ObjectId the
  \<open>k\<close>-th \<open>new\<close> document of the call receives. No \<open>lectureNumber\<close> is passed to the
  constructor. A \<open>save\<close> that rejects ends the loop, and the method.
\<close>

fun copyLectures ::
  "(nat \<Rightarrow> objectId) \<Rightarrow> nat \<Rightarrow> ('n::{zero,one,plus,ord}) lectureDoc list \<Rightarrow> objectId \<Rightarrow> 'n db
     \<Rightarrow> (error + unit) \<times> 'n db" where
  "copyLectures newId k [] duplicatedId db = (Inr (), db)"
| "copyLectures newId k (lecture # rest) duplicatedId db =
     (case saveNewLecture
             \<lparr>l_id = newId k,
              l_title = l_title lecture,
              l_videoUrl = l_videoUrl lecture,
              l_duration = l_duration lecture,
              l_moduleId = duplicatedId,
              l_courseId = l_courseId lecture,
              l_lectureNumber = 0,
              l_pdfNotes = l_pdfNotes lecture,
              l_isActive = l_isActive lecture\<rparr>
             None db of
        (Inl e, db') \<Rightarrow> (Inl e, db')
      | (Inr duplicatedLecture, db') \<Rightarrow> copyLectures newId (k + 1) rest duplicatedId db')"

definition duplicateModule ::
  "(nat \<Rightarrow> objectId) \<Rightarrow> objectId \<Rightarrow> ('n::{zero,one,plus,ord}) db
     \<Rightarrow> (error + 'n moduleDoc) \<times> 'n db" where
  "duplicateModule newId moduleId db =
     (case find (\<lambda>m. m_id m = moduleId) (db_modules db) of
        None \<Rightarrow> (Inl ModuleNotFound, db)
      | Some originalModule \<Rightarrow>
          (let newModuleNumber =
                 (case lastModuleNumber (m_courseId originalModule) db of
                    Some k \<Rightarrow> k + 1
                  | None \<Rightarrow> 1)
           in case saveNewModule
                     \<lparr>m_id = newId 0,
                      m_title = m_title originalModule @ '' (Copy)'',
                      m_moduleNumber = newModuleNumber,
                      m_courseId = m_courseId originalModule,
                      m_isActive = m_isActive originalModule,
                      m_lectureCount = 0,
                      m_totalDuration = 0\<rparr>
                     (Some newModuleNumber) db of
                (Inl e, db1) \<Rightarrow> (Inl e, db1)
              | (Inr duplicatedModule, db1) \<Rightarrow>
                  (let originalLectures =
                         filter (\<lambda>l. l_moduleId l = m_id originalModule) (db_lectures db1)
                   in case copyLectures newId 1 originalLectures (m_id duplicatedModule) db1 of
                        (Inl e, db2) \<Rightarrow> (Inl e, db2)
                      | (Inr u, db2) \<Rightarrow>
                          (Inr duplicatedModule,
                           case find (\<lambda>c. c_id c = m_courseId originalModule) (db_courses db2) of
                             None \<Rightarrow> db2
                           | Some course \<Rightarrow> snd (calculateStats (c_id course) db2)))))"

section \<open>Properties of a progress document\<close>

text \<open>
  The percentage as the specification words it, \<open>round(completedLectures / totalLectures
  * 100)\<close> and 0 when \<open>totalLectures\<close> is 0: the exact ratio, rounded to the nearest
  integer, a tie going up (the rule of \<open>Math.round\<close>).
\<close>

definition roundedRatio :: "nat \<Rightarrow> nat \<Rightarrow> int" where
  "roundedRatio completedLectures totalLectures =
     (if totalLectures > 0
      then \<lfloor>(of_nat completedLectures / of_nat totalLectures * 100 :: rat) + 1 / 2\<rfloor>
      else 0)"


text \<open>The stored percentage is the value of the code's expression on the stored counters.\<close>

definition percentageConsistent :: "progress \<Rightarrow> bool" where
  "percentageConsistent this =
     (p_progressPercentage this =
        (if p_totalLectures this > 0
         then Math_round
                (js_mul (js_div (of_nat (p_completedLectures this)) (of_nat (p_totalLectures this)))
                   100)
         else 0))"

text \<open>The course is completed exactly when all of its modules, at least one, are.\<close>

definition completionConsistent :: "progress \<Rightarrow> bool" where
  "completionConsistent this =
     (p_isCompleted this =
        (p_completedModules this = p_totalModules this \<and> 0 < p_totalModules this))"

section \<open>Properties of the module numbers of a course\<close>

definition moduleNumbers :: "objectId \<Rightarrow> 'n db \<Rightarrow> nat list" where
  "moduleNumbers courseId db =
     map m_moduleNumber (filter (\<lambda>m. m_courseId m = courseId) (db_modules db))"

text \<open>The numbers are exactly 1..N, N the number of them: no duplicate, no gap.\<close>

definition gapless :: "nat list \<Rightarrow> bool" where
  "gapless ns = (sort ns = [1..<Suc (length ns)])"

section \<open>Notions used in the proofs\<close>

text \<open>
  The completion flags of the lecture entries after a sequence of calls, computed on the
  list of lecture ids and the list of flags alone: a call changes the flag of the first
  entry that carries its id, if it carries a value for \<open>isCompleted\<close>.
\<close>

fun flagsAfterCalls :: "objectId list \<Rightarrow> updateCall list \<Rightarrow> bool list \<Rightarrow> bool list" where
  "flagsAfterCalls ids [] flags = flags"
| "flagsAfterCalls ids (c # cs) flags =
     flagsAfterCalls ids cs
       (case findIndex (\<lambda>x. x = u_lectureId c) ids of
          None \<Rightarrow> flags
        | Some j \<Rightarrow> (case u_isCompleted c of None \<Rightarrow> flags | Some b \<Rightarrow> flags[j := b]))"

text \<open>Every module entry counts its completed lectures correctly.\<close>

definition modulesCounted :: "moduleProgress list \<Rightarrow> bool" where
  "modulesCounted ms =
     list_all (\<lambda>m. mp_completedLectures m = length (filter lp_isCompleted (mp_lectures m))) ms"

text \<open>The counters of completed lectures agree with the completion flags.\<close>

definition counted :: "progress \<Rightarrow> bool" where
  "counted this =
     (modulesCounted (p_modules this)
      \<and> p_completedLectures this = length (filter lp_isCompleted (flattened this)))"

text \<open>The number a module gets from a list of ids: its position, counted from 1; 0 if absent.\<close>

definition numberOf :: "objectId list \<Rightarrow> objectId \<Rightarrow> nat" where
  "numberOf ids x = (case findIndex (\<lambda>y. y = x) ids of Some j \<Rightarrow> j + 1 | None \<Rightarrow> 0)"

text \<open>A module after the loop has run over \<open>ids\<close>, starting at index \<open>i\<close>.\<close>

definition renumbered :: "objectId list \<Rightarrow> nat \<Rightarrow> 'n moduleDoc \<Rightarrow> 'n moduleDoc" where
  "renumbered ids i m =
     (case findIndex (\<lambda>x. x = m_id m) ids of
        Some j \<Rightarrow> m\<lparr>m_moduleNumber := i + j + 1\<rparr>
      | None \<Rightarrow> m)"

section \<open>Example data\<close>

text \<open>
  The course of the specification's scenarios: module A with lectures A1 and A2, module B
  with lecture B1; durations in minutes.
\<close>

definition exUser :: objectId where "exUser = ''64b0000000000000000000f1''"
definition exCourse :: objectId where "exCourse = ''64b0000000000000000000c1''"
definition exModuleA :: objectId where "exModuleA = ''64b0000000000000000000a0''"
definition exModuleB :: objectId where "exModuleB = ''64b0000000000000000000b0''"
definition exLectureA1 :: objectId where "exLectureA1 = ''64b0000000000000000000a1''"
definition exLectureA2 :: objectId where "exLectureA2 = ''64b0000000000000000000a2''"
definition exLectureB1 :: objectId where "exLectureB1 = ''64b0000000000000000000b1''"
definition exUnknown :: objectId where "exUnknown = ''64b0000000000000000000ee''"

definition exLecture :: "objectId \<Rightarrow> objectId \<Rightarrow> nat \<Rightarrow> nat \<Rightarrow> nat lectureDoc" where
  "exLecture i m n d =
     \<lparr>l_id = i, l_title = ''Lecture'', l_videoUrl = ''https://example.org/v'', l_duration = d,
      l_moduleId = m, l_courseId = exCourse, l_lectureNumber = n, l_pdfNotes = [],
      l_isActive = True\<rparr>"

definition exModule :: "objectId \<Rightarrow> string \<Rightarrow> nat \<Rightarrow> nat \<Rightarrow> nat \<Rightarrow> nat moduleDoc" where
  "exModule i t n c d =
     \<lparr>m_id = i, m_title = t, m_moduleNumber = n, m_courseId = exCourse, m_isActive = True,
      m_lectureCount = c, m_totalDuration = d\<rparr>"

definition exampleDb :: "nat db" where
  "exampleDb =
     \<lparr>db_courses = [\<lparr>c_id = exCourse, c_isActive = True, c_totalModules = 2,
                      c_totalLectures = 3, c_totalDuration = 45\<rparr>],
      db_modules = [exModule exModuleA ''A'' 1 2 30, exModule exModuleB ''B'' 2 1 15],
      db_lectures = [exLecture exLectureA1 exModuleA 1 10, exLecture exLectureA2 exModuleA 2 20,
                     exLecture exLectureB1 exModuleB 1 15],
      db_indexesEnforced = True\<rparr>"

definition exampleProgress :: progress where
  "exampleProgress = initializeForCourse 1000 exUser exCourse None exampleDb"

definition markCompleted :: "date \<Rightarrow> objectId \<Rightarrow> updateCall" where
  "markCompleted now lectureId =
     \<lparr>u_now = now, u_lectureId = lectureId, u_watchTime = None, u_isCompleted = Some True\<rparr>"

text \<open>
  The example course after its second of three modules was deleted (\<open>deleteModule\<close> does
  not renumber): A has number 1, B has number 3.
\<close>

definition gapDb :: "bool \<Rightarrow> nat db" where
  "gapDb enforced =
     exampleDb\<lparr>db_modules := [exModule exModuleA ''A'' 1 2 30, exModule exModuleB ''B'' 3 1 15],
               db_indexesEnforced := enforced\<rparr>"

text \<open>\<open>exNewId\<close> supplies the ObjectIds of new documents.\<close>

definition exNewId :: "nat \<Rightarrow> objectId" where
  "exNewId k = ''64b0000000000000000000d'' @ [''0123456789abcdef'' ! (k mod 16)]"

text \<open>
  A course of one module with 40 lectures, and the calls that mark its first 23 lectures
  completed, in order.
\<close>

definition hexDigit :: "nat \<Rightarrow> char" where
  "hexDigit n = ''0123456789abcdef'' ! (n mod 16)"

definition exLectureId :: "nat \<Rightarrow> objectId" where
  "exLectureId k = ''64b0000000000000000001'' @ [hexDigit (k div 16), hexDigit k]"

definition longCourseDb :: "nat db" where
  "longCourseDb =
     \<lparr>db_courses = [\<lparr>c_id = exCourse, c_isActive = True, c_totalModules = 1,
                      c_totalLectures = 40, c_totalDuration = 400\<rparr>],
      db_modules = [exModule exModuleA ''A'' 1 40 400],
      db_lectures = map (\<lambda>k. exLecture (exLectureId k) exModuleA (k + 1) 10) [0..<40],
      db_indexesEnforced = True\<rparr>"

definition first23Completed :: progress where
  "first23Completed =
     applyCalls (map (\<lambda>k. markCompleted (2000 + k) (exLectureId k)) [0..<23])
       (initializeForCourse 1000 exUser exCourse None longCourseDb)"

section \<open>The next unlocked lecture\<close>

lemma find_append_opt:
  "find P (xs @ ys) = (case find P xs of None \<Rightarrow> find P ys | Some x \<Rightarrow> Some x)"
  by (induction xs) auto

lemma scanLectures_find:
  "i = 0 \<or> lp_isCompleted (ls ! (i - 1)) \<Longrightarrow>
   map_option siteId (scanLectures ls i)
     = map_option lp_lectureId (find (\<lambda>l. \<not> lp_isCompleted l) (drop i ls))"
proof (induction ls i rule: scanLectures.induct)
  case (1 lectures i)
  show ?case
  proof (cases "i < length lectures")
    case False
    then show ?thesis by (simp add: scanLectures.simps)
  next
    case True
    then have d: "drop i lectures = lectures ! i # drop (Suc i) lectures"
      by (simp add: Cons_nth_drop_Suc)
    show ?thesis
    proof (cases "lp_isCompleted (lectures ! i)")
      case False
      with True 1(2) d show ?thesis
        by (auto simp: scanLectures.simps [of lectures i] Let_def)
    next
      case c: True
      have "map_option siteId (scanLectures lectures (i + 1))
              = map_option lp_lectureId (find (\<lambda>l. \<not> lp_isCompleted l) (drop (i + 1) lectures))"
        using 1(1) [OF True refl] c by simp
      with True c d show ?thesis
        by (simp add: scanLectures.simps [of lectures i])
    qed
  qed
qed

lemma scanLectures_never_previous:
  "i = 0 \<or> lp_isCompleted (ls ! (i - 1)) \<Longrightarrow> scanLectures ls i \<noteq> Some (PreviousIncomplete l)"
proof (induction ls i rule: scanLectures.induct)
  case (1 lectures i)
  show ?case
  proof (cases "i < length lectures \<and> lp_isCompleted (lectures ! i)")
    case True
    then have "scanLectures lectures (i + 1) \<noteq> Some (PreviousIncomplete l)"
      using 1(1) [of "lectures ! i"] by simp
    with True show ?thesis by (simp add: scanLectures.simps [of lectures i])
  next
    case False
    with 1(2) show ?thesis
      by (auto simp: scanLectures.simps [of lectures i] Let_def)
  qed
qed

lemma scanModules_find:
  "map_option siteId (scanModules ms)
     = map_option lp_lectureId (find (\<lambda>l. \<not> lp_isCompleted l) (concat (map mp_lectures ms)))"
proof (induction ms)
  case Nil
  show ?case by simp
next
  case (Cons m ms)
  have h: "map_option siteId (scanLectures (mp_lectures m) 0)
             = map_option lp_lectureId (find (\<lambda>l. \<not> lp_isCompleted l) (mp_lectures m))"
    using scanLectures_find [of 0 "mp_lectures m"] by simp
  show ?case
  proof (cases "scanLectures (mp_lectures m) 0")
    case None
    with h Cons show ?thesis by (simp add: find_append_opt)
  next
    case (Some s)
    with h show ?thesis by (auto simp: find_append_opt split: option.splits)
  qed
qed

lemma scanModules_never_previous: "scanModules ms \<noteq> Some (PreviousIncomplete l)"
proof (induction ms)
  case Nil
  show ?case by simp
next
  case (Cons m ms)
  with scanLectures_never_previous [of 0 "mp_lectures m" l] show ?case
    by (auto split: option.splits)
qed

text \<open>
  Claim C10. For every progress document, \<open>getNextUnlockedLecture\<close> returns the id of the
  first lecture that is not completed, in the order modules-then-lectures, and \<open>null\<close>
  when every lecture is completed; the \<open>return previousLecture.lectureId\<close> branch is
  never taken.
\<close>

theorem getNextUnlockedLecture_is_firstIncomplete:
  "getNextUnlockedLecture this = firstIncomplete this
   \<and> (\<forall>l. nextUnlockedSite this \<noteq> Some (PreviousIncomplete l))"
  by (simp add: getNextUnlockedLecture_def firstIncomplete_def nextUnlockedSite_def
      flattened_def scanModules_find scanModules_never_previous)

section \<open>Updating the progress of a lecture\<close>

subsection \<open>findIndex\<close>

lemma findIndex_None_iff: "findIndex P xs = None \<longleftrightarrow> \<not> list_ex P xs"
  by (induction xs) auto

lemma findIndex_Some:
  "findIndex P xs = Some i \<Longrightarrow> i < length xs \<and> P (xs ! i) \<and> (\<forall>j<i. \<not> P (xs ! j))"
proof (induction xs arbitrary: i)
  case Nil
  then show ?case by simp
next
  case (Cons x xs)
  show ?case
  proof (cases "P x")
    case True
    with Cons.prems show ?thesis by simp
  next
    case False
    with Cons.prems obtain k where k: "findIndex P xs = Some k" "i = Suc k"
      by auto
    from Cons.IH [OF k(1)] False k(2) show ?thesis
      by (auto simp: nth_Cons split: nat.splits)
  qed
qed

lemma list_ex_concat: "list_ex P (concat xss) \<longleftrightarrow> list_ex (list_ex P) xss"
  by (induction xss) auto

lemma findIndex_append:
  "findIndex P (xs @ ys) =
     (case findIndex P xs of
        Some i \<Rightarrow> Some i
      | None \<Rightarrow> map_option (\<lambda>j. length xs + j) (findIndex P ys))"
  by (induction xs; cases "findIndex P ys") (auto split: option.splits)

lemma findIndex_concat:
  "findIndex (list_ex P) xss = Some mi \<Longrightarrow> findIndex P (xss ! mi) = Some li \<Longrightarrow>
   findIndex P (concat xss) = Some (length (concat (take mi xss)) + li)"
proof (induction xss arbitrary: mi)
  case Nil
  then show ?case by simp
next
  case (Cons xs xss)
  show ?case
  proof (cases "list_ex P xs")
    case True
    with Cons.prems show ?thesis by (simp add: findIndex_append)
  next
    case False
    with Cons.prems obtain k where k: "findIndex (list_ex P) xss = Some k" "mi = Suc k"
      by auto
    from False have n: "findIndex P xs = None" by (simp add: findIndex_None_iff)
    from Cons.prems(2) k(2) have "findIndex P (xss ! k) = Some li" by simp
    from Cons.IH [OF k(1) this] n k(2) show ?thesis
      by (simp add: findIndex_append)
  qed
qed

lemma concat_update:
  "mi < length xss \<Longrightarrow> li < length (xss ! mi) \<Longrightarrow>
   concat (xss[mi := (xss ! mi)[li := v]]) = (concat xss)[length (concat (take mi xss)) + li := v]"
proof (induction xss arbitrary: mi)
  case Nil
  then show ?case by simp
next
  case (Cons xs xss)
  show ?case
  proof (cases mi)
    case 0
    with Cons.prems show ?thesis by (simp add: list_update_append)
  next
    case (Suc k)
    with Cons.prems Cons.IH [of k] show ?thesis by (simp add: list_update_append)
  qed
qed

subsection \<open>What a call changes\<close>

lemma mp_lectures_recalculateModule [simp]:
  "mp_lectures (recalculateModule now m) = mp_lectures m"
  by (simp add: recalculateModule_def Let_def)

lemma p_modules_recalculateOverall [simp]:
  "p_modules (recalculateOverall now this) = p_modules this"
  by (simp add: recalculateOverall_def Let_def)

lemma p_totalModules_recalculateOverall [simp]:
  "p_totalModules (recalculateOverall now this) = p_totalModules this"
  by (simp add: recalculateOverall_def Let_def)

lemma p_totalLectures_recalculateOverall [simp]:
  "p_totalLectures (recalculateOverall now this) = p_totalLectures this"
  by (simp add: recalculateOverall_def Let_def)

lemma list_ex_lectures_flattened:
  "list_ex (\<lambda>md. list_ex P (mp_lectures md)) (p_modules this) \<longleftrightarrow> list_ex P (flattened this)"
  by (simp add: flattened_def list_ex_concat list_ex_iff)

lemma findIndex_map: "findIndex P (map f xs) = findIndex (P \<circ> f) xs"
  by (induction xs) auto

text \<open>The outcome of a call, case by case.\<close>

lemma updateLectureProgress_absent:
  "\<not> list_ex (\<lambda>l. lp_lectureId l = lectureId) (flattened this) \<Longrightarrow>
   updateLectureProgress now lectureId watchTime isCompleted this
     = (Inl LectureNotFoundInProgress, this)"
  by (simp add: updateLectureProgress_def findIndex_None_iff [THEN iffD2]
      list_ex_lectures_flattened)

lemma updateLectureProgress_present:
  assumes "list_ex (\<lambda>l. lp_lectureId l = lectureId) (flattened this)"
  obtains moduleIndex lectureIndex where
    "findIndex (\<lambda>md. list_ex (\<lambda>l. lp_lectureId l = lectureId) (mp_lectures md)) (p_modules this)
       = Some moduleIndex"
    "findIndex (\<lambda>l. lp_lectureId l = lectureId) (mp_lectures (p_modules this ! moduleIndex))
       = Some lectureIndex"
    "updateLectureProgress now lectureId watchTime isCompleted this
       = (Inr (),
          recalculateOverall now
            (this\<lparr>p_modules := (p_modules this)
               [moduleIndex := recalculateModule now
                  ((p_modules this ! moduleIndex)
                     \<lparr>mp_lectures := (mp_lectures (p_modules this ! moduleIndex))
                        [lectureIndex := updateLecture now watchTime isCompleted
                           (mp_lectures (p_modules this ! moduleIndex) ! lectureIndex)]\<rparr>)]\<rparr>))"
proof -
  let ?P = "\<lambda>md. list_ex (\<lambda>l. lp_lectureId l = lectureId) (mp_lectures md)"
  from assms have "list_ex ?P (p_modules this)"
    by (simp add: list_ex_lectures_flattened)
  then obtain mi where mi: "findIndex ?P (p_modules this) = Some mi"
    using findIndex_None_iff [of ?P "p_modules this"] by (cases "findIndex ?P (p_modules this)") auto
  from findIndex_Some [OF mi] have "?P (p_modules this ! mi)" by simp
  then obtain li where
    li: "findIndex (\<lambda>l. lp_lectureId l = lectureId) (mp_lectures (p_modules this ! mi)) = Some li"
    using findIndex_None_iff [of "\<lambda>l. lp_lectureId l = lectureId" "mp_lectures (p_modules this ! mi)"]
    by (cases "findIndex (\<lambda>l. lp_lectureId l = lectureId) (mp_lectures (p_modules this ! mi))") auto
  from mi li have "updateLectureProgress now lectureId watchTime isCompleted this
       = (Inr (),
          recalculateOverall now
            (this\<lparr>p_modules := (p_modules this)
               [mi := recalculateModule now
                  ((p_modules this ! mi)
                     \<lparr>mp_lectures := (mp_lectures (p_modules this ! mi))
                        [li := updateLecture now watchTime isCompleted
                           (mp_lectures (p_modules this ! mi) ! li)]\<rparr>)]\<rparr>))"
    by (simp add: updateLectureProgress_def Let_def)
  with mi li that show thesis by blast
qed

text \<open>
  Claim C6. \<open>updateLectureProgress\<close> throws "Lecture not found in progress" exactly
  when no lecture entry of the snapshot carries the id; the second \<open>throw\<close> ("not found
  in module") never happens; and whenever the call throws, the document is exactly as it
  was before the call.
\<close>

theorem updateLectureProgress_NotFound_iff_absent:
  "(fst (updateLectureProgress now lectureId watchTime isCompleted this)
      = Inl LectureNotFoundInProgress
    \<longleftrightarrow> \<not> list_ex (\<lambda>l. lp_lectureId l = lectureId) (flattened this))
   \<and> fst (updateLectureProgress now lectureId watchTime isCompleted this)
       \<noteq> Inl LectureNotFoundInModule
   \<and> (isl (fst (updateLectureProgress now lectureId watchTime isCompleted this))
        \<longrightarrow> snd (updateLectureProgress now lectureId watchTime isCompleted this) = this)"
proof (cases "list_ex (\<lambda>l. lp_lectureId l = lectureId) (flattened this)")
  case False
  then show ?thesis by (simp add: updateLectureProgress_absent)
next
  case True
  then obtain this' where
    "updateLectureProgress now lectureId watchTime isCompleted this = (Inr (), this')"
    by (rule updateLectureProgress_present)
  with True show ?thesis by simp
qed

theorem updateLectureProgress_NotFound_witness:
  "fst (updateLectureProgress 2000 exUnknown None (Some True) exampleProgress)
     = Inl LectureNotFoundInProgress
   \<and> snd (updateLectureProgress 2000 exUnknown None (Some True) exampleProgress)
       = exampleProgress"
proof -
  have absent: "\<not> list_ex (\<lambda>l. lp_lectureId l = exUnknown) (flattened exampleProgress)"
    by code_simp
  from updateLectureProgress_NotFound_iff_absent
         [of 2000 exUnknown None "Some True" exampleProgress] absent
  show ?thesis by simp
qed

subsection \<open>The double model\<close>

lemma pow2_power_int: "pow2 e = 2 powi e"
  by (simp add: pow2_def power_int_def field_simps)

lemma bitlen_bounds_rat:
  assumes a: "0 < a"
  shows "(2::rat) powi (bitlen a - 1) \<le> of_int a" and "of_int a < (2::rat) powi (bitlen a)"
proof -
  from bitlen_bounds [OF a] have l: "2 ^ nat (bitlen a - 1) \<le> a" and u: "a < 2 ^ nat (bitlen a)"
    by simp_all
  have pos: "1 \<le> bitlen a"
  proof (rule ccontr)
    assume "\<not> 1 \<le> bitlen a"
    then have "nat (bitlen a) = 0" by simp
    with u a show False by simp
  qed
  from l have "(of_int (2 ^ nat (bitlen a - 1)) :: rat) \<le> of_int a"
    by (simp only: of_int_le_iff)
  with pos show "(2::rat) powi (bitlen a - 1) \<le> of_int a"
    by (simp add: power_int_def)
  from u have "(of_int a :: rat) < of_int (2 ^ nat (bitlen a))"
    by (simp only: of_int_less_iff)
  with pos show "of_int a < (2::rat) powi (bitlen a)"
    by (simp add: power_int_def)
qed

lemma binade_bounds:
  assumes "0 < x"
  shows "pow2 (binade x) \<le> x \<and> x < pow2 (binade x + 1)"
proof -
  obtain a b where q: "quotient_of x = (a, b)" by (cases "quotient_of x")
  from q have b: "0 < b" by (rule quotient_of_denom_pos)
  from q have x: "x = of_int a / of_int b" by (rule quotient_of_div)
  from assms x b have a: "0 < a" by (simp add: zero_less_divide_iff)
  define e0 where "e0 = bitlen a - bitlen b"
  have e: "binade x = (if pow2 e0 \<le> x then e0 else e0 - 1)"
    by (simp add: binade_def q e0_def Let_def)
  have lo: "(2::rat) powi (e0 - 1) < x"
  proof -
    have "(2::rat) powi (e0 - 1) = 2 powi (bitlen a - 1) / 2 powi (bitlen b)"
      by (simp add: e0_def power_int_diff [symmetric] algebra_simps)
    also have "\<dots> < of_int a / of_int b"
      using bitlen_bounds_rat(1) [OF a] bitlen_bounds_rat(2) [OF b] a b
      by (intro frac_less2) simp_all
    finally show ?thesis by (simp add: x)
  qed
  have hi: "x < (2::rat) powi (e0 + 1)"
  proof -
    have "of_int a / of_int b < (2::rat) powi (bitlen a) / 2 powi (bitlen b - 1)"
      using bitlen_bounds_rat(2) [OF a] bitlen_bounds_rat(1) [OF b] a b
      by (intro frac_less) simp_all
    also have "\<dots> = (2::rat) powi (e0 + 1)"
      by (simp add: e0_def power_int_diff [symmetric] algebra_simps)
    finally show ?thesis by (simp add: x)
  qed
  show ?thesis
  proof (cases "pow2 e0 \<le> x")
    case True
    with e hi show ?thesis by (simp add: pow2_power_int)
  next
    case False
    with e lo show ?thesis by (simp add: pow2_power_int)
  qed
qed

lemma roundTiesToEven_nearest: "\<bar>of_int (roundTiesToEven m) - m\<bar> \<le> 1 / 2"
proof -
  have "of_int \<lfloor>m\<rfloor> \<le> m" and "m < of_int \<lfloor>m\<rfloor> + 1" by linarith+
  then show ?thesis by (auto simp: roundTiesToEven_def Let_def)
qed

text \<open>
  The rounded value is within half a unit of the last place, the unit being that of the
  binade of the argument.
\<close>

lemma toDouble_nearest: "\<bar>toDouble x - x\<bar> \<le> pow2 (binade \<bar>x\<bar> - 52) / 2"
proof (cases "x = 0")
  case True
  then show ?thesis by (simp add: toDouble_def pow2_power_int)
next
  case False
  define ulp where "ulp = pow2 (binade \<bar>x\<bar> - 52)"
  have u: "0 < ulp" by (simp add: ulp_def pow2_power_int)
  define r where "r = (of_int (roundTiesToEven (\<bar>x\<bar> / ulp)) :: rat)"
  have "\<bar>r - \<bar>x\<bar> / ulp\<bar> \<le> 1 / 2"
    unfolding r_def by (rule roundTiesToEven_nearest)
  then have "\<bar>r - \<bar>x\<bar> / ulp\<bar> * ulp \<le> 1 / 2 * ulp"
    using u by (intro mult_right_mono) simp_all
  moreover have "\<bar>r - \<bar>x\<bar> / ulp\<bar> * ulp = \<bar>r * ulp - \<bar>x\<bar>\<bar>"
  proof -
    have "(r - \<bar>x\<bar> / ulp) * ulp = r * ulp - \<bar>x\<bar>"
      using u by (simp add: field_simps)
    then have "\<bar>r * ulp - \<bar>x\<bar>\<bar> = \<bar>r - \<bar>x\<bar> / ulp\<bar> * \<bar>ulp\<bar>"
      by (simp only: abs_mult [symmetric])
    with u show ?thesis by simp
  qed
  ultimately have h: "\<bar>r * ulp - \<bar>x\<bar>\<bar> \<le> ulp / 2" by simp
  have t: "toDouble x = sgn x * (r * ulp)"
    using False by (simp add: toDouble_def Let_def ulp_def r_def)
  have sx: "sgn x * \<bar>x\<bar> = x" by (rule mult_sgn_abs)
  have "toDouble x - x = sgn x * (r * ulp) - sgn x * \<bar>x\<bar>"
    by (simp only: t sx)
  then have "\<bar>toDouble x - x\<bar> = \<bar>sgn x * (r * ulp - \<bar>x\<bar>)\<bar>"
    by (simp only: right_diff_distrib)
  also have "\<dots> = \<bar>r * ulp - \<bar>x\<bar>\<bar>"
    using False by (simp add: abs_mult abs_sgn_eq)
  finally show ?thesis using h by (simp add: ulp_def)
qed

text \<open>
  The model against values computed by an IEEE 754 implementation: some percentages of a
  course of 40 lectures, and those of one of 7.
\<close>

lemma percentage_of_40:
  "map (\<lambda>completed. percentage completed 40) [1, 9, 17, 23, 31, 39] = [3, 23, 43, 57, 78, 98]"
  by code_simp

lemma percentage_of_7:
  "map (\<lambda>completed. percentage completed 7) [0..<8] = [0, 14, 29, 43, 57, 71, 86, 100]"
  by code_simp

subsection \<open>Derived fields after a call\<close>

lemma floor_half: "\<lfloor>1 / 2 :: rat\<rfloor> = 0"
  by (rule floor_unique) simp_all

lemma percentage_zero: "percentage 0 n = 0"
  by (simp add: percentage_def js_div_def js_mul_def toDouble_def Math_round_def floor_half)

lemma percentageConsistent_alt:
  "percentageConsistent this
     = (p_progressPercentage this = percentage (p_completedLectures this) (p_totalLectures this))"
  by (simp add: percentageConsistent_def percentage_def)

lemma percentageConsistent_recalculateOverall:
  "percentageConsistent (recalculateOverall now this)"
  by (simp add: percentageConsistent_alt recalculateOverall_def Let_def)

lemma percentageConsistent_initializeForCourse:
  "percentageConsistent (initializeForCourse now userId courseId existing db)"
proof -
  have "p_progressPercentage (initializeForCourse now userId courseId existing db) = 0"
    and "p_completedLectures (initializeForCourse now userId courseId existing db) = 0"
    by (simp_all add: initializeForCourse_def Let_def)
  then show ?thesis by (simp add: percentageConsistent_alt percentage_zero)
qed

lemma percentageConsistent_update:
  "percentageConsistent this \<or> fst (updateLectureProgress now lectureId watchTime isCompleted this) = Inr ()
   \<Longrightarrow> percentageConsistent (snd (updateLectureProgress now lectureId watchTime isCompleted this))"
proof (cases "list_ex (\<lambda>l. lp_lectureId l = lectureId) (flattened this)")
  case False
  assume "percentageConsistent this \<or> fst (updateLectureProgress now lectureId watchTime isCompleted this) = Inr ()"
  with False show ?thesis by (simp add: updateLectureProgress_absent)
next
  case True
  then obtain mi li where
    "updateLectureProgress now lectureId watchTime isCompleted this
       = (Inr (),
          recalculateOverall now
            (this\<lparr>p_modules := (p_modules this)
               [mi := recalculateModule now
                  ((p_modules this ! mi)
                     \<lparr>mp_lectures := (mp_lectures (p_modules this ! mi))
                        [li := updateLecture now watchTime isCompleted
                           (mp_lectures (p_modules this ! mi) ! li)]\<rparr>)]\<rparr>))"
    by (rule updateLectureProgress_present)
  then show ?thesis by (simp add: percentageConsistent_recalculateOverall)
qed

lemma percentageConsistent_applyCalls:
  "percentageConsistent this \<Longrightarrow> percentageConsistent (applyCalls calls this)"
  by (induction calls arbitrary: this) (simp_all add: percentageConsistent_update)

text \<open>
  After a call of \<open>updateLectureProgress\<close> that returns, and in every document reached
  from \<open>initializeForCourse\<close> by calls of \<open>updateLectureProgress\<close>, the stored percentage
  is the value of the code's expression on the stored counters.
\<close>

lemma progressPercentage_is_expression_of_counters:
  "(fst (updateLectureProgress now lectureId watchTime isCompleted this) = Inr ()
      \<longrightarrow> percentageConsistent (snd (updateLectureProgress now lectureId watchTime isCompleted this)))
   \<and> percentageConsistent
        (applyCalls calls (initializeForCourse now0 userId courseId existing db))"
  by (simp add: percentageConsistent_update percentageConsistent_applyCalls
      percentageConsistent_initializeForCourse)

text \<open>The scenario of the specification: one lecture of three completed gives 33.\<close>

lemma progressPercentage_one_of_three:
  "fst (updateLectureProgress 2000 exLectureA1 None (Some True) exampleProgress) = Inr ()
   \<and> p_progressPercentage
        (snd (updateLectureProgress 2000 exLectureA1 None (Some True) exampleProgress)) = 33"
  by code_simp

text \<open>
  The expression is evaluated on doubles. It is not always the exact ratio rounded half
  up: 23 of 40 is 57.5 exactly, but the product of the doubles is just below it.
\<close>

lemma percentage_23_of_40: "percentage 23 40 = 57 \<and> \<lfloor>(23 * 100 / 40 :: rat) + 1 / 2\<rfloor> = 58"
  by code_simp

subsection \<open>Course completion\<close>

lemma p_isCompleted_recalculateOverall:
  "p_isCompleted (recalculateOverall now this)
     = (p_completedModules (recalculateOverall now this) = p_totalModules this)"
  by (simp add: recalculateOverall_def Let_def)

lemma totalModules_update:
  "p_totalModules (snd (updateLectureProgress now lectureId watchTime isCompleted this))
     = p_totalModules this
   \<and> length (p_modules (snd (updateLectureProgress now lectureId watchTime isCompleted this)))
     = length (p_modules this)"
proof (cases "list_ex (\<lambda>l. lp_lectureId l = lectureId) (flattened this)")
  case False
  then show ?thesis by (simp add: updateLectureProgress_absent)
next
  case True
  then show ?thesis
    by (rule updateLectureProgress_present [where now = now and watchTime = watchTime
          and isCompleted = isCompleted]) simp
qed

lemma completionConsistent_update:
  assumes "p_totalModules this = length (p_modules this)" and "completionConsistent this"
  shows "completionConsistent (snd (updateLectureProgress now lectureId watchTime isCompleted this))"
proof (cases "list_ex (\<lambda>l. lp_lectureId l = lectureId) (flattened this)")
  case False
  with assms(2) show ?thesis by (simp add: updateLectureProgress_absent)
next
  case True
  then obtain mi li where
    mi: "findIndex (\<lambda>md. list_ex (\<lambda>l. lp_lectureId l = lectureId) (mp_lectures md)) (p_modules this)
           = Some mi"
    and u: "updateLectureProgress now lectureId watchTime isCompleted this
       = (Inr (),
          recalculateOverall now
            (this\<lparr>p_modules := (p_modules this)
               [mi := recalculateModule now
                  ((p_modules this ! mi)
                     \<lparr>mp_lectures := (mp_lectures (p_modules this ! mi))
                        [li := updateLecture now watchTime isCompleted
                           (mp_lectures (p_modules this ! mi) ! li)]\<rparr>)]\<rparr>))"
    by (rule updateLectureProgress_present)
  from findIndex_Some [OF mi] have "mi < length (p_modules this)" by simp
  with assms(1) have "0 < p_totalModules this" by auto
  with u show ?thesis
    by (simp add: completionConsistent_def p_isCompleted_recalculateOverall)
qed

lemma completionConsistent_applyCalls:
  "p_totalModules this = length (p_modules this) \<Longrightarrow> completionConsistent this \<Longrightarrow>
   completionConsistent (applyCalls calls this)"
proof (induction calls arbitrary: this)
  case Nil
  then show ?case by simp
next
  case (Cons c calls)
  let ?n = "snd (updateLectureProgress (u_now c) (u_lectureId c) (u_watchTime c) (u_isCompleted c) this)"
  have "p_totalModules ?n = length (p_modules ?n)"
    using totalModules_update [of "u_now c" "u_lectureId c" "u_watchTime c" "u_isCompleted c" this]
      Cons.prems(1) by simp
  moreover have "completionConsistent ?n"
    using Cons.prems by (rule completionConsistent_update)
  ultimately show ?case using Cons.IH [of ?n] by simp
qed

lemma initializeForCourse_completion:
  "p_totalModules (initializeForCourse now userId courseId existing db)
     = length (p_modules (initializeForCourse now userId courseId existing db))
   \<and> completionConsistent (initializeForCourse now userId courseId existing db)"
  by (auto simp: initializeForCourse_def Let_def completionConsistent_def)

text \<open>
  Claim C3. In every document reached from \<open>initializeForCourse\<close> by calls of
  \<open>updateLectureProgress\<close>, so after every such call, \<open>isCompleted\<close> is true if and only
  if \<open>completedModules\<close> equals \<open>totalModules\<close> and \<open>totalModules\<close> is greater than 0.
\<close>

theorem isCompleted_iff_all_modules_completed:
  "completionConsistent (applyCalls calls (initializeForCourse now userId courseId existing db))"
  using initializeForCourse_completion [of now userId courseId existing db]
  by (simp add: completionConsistent_applyCalls)

theorem isCompleted_iff_witness:
  "p_isCompleted
     (applyCalls [markCompleted 2000 exLectureA1, markCompleted 3000 exLectureA2,
                  markCompleted 4000 exLectureB1] exampleProgress)
   \<and> completionConsistent
       (applyCalls [markCompleted 2000 exLectureA1, markCompleted 3000 exLectureA2,
                    markCompleted 4000 exLectureB1] exampleProgress)"
proof -
  have "p_isCompleted
     (applyCalls [markCompleted 2000 exLectureA1, markCompleted 3000 exLectureA2,
                  markCompleted 4000 exLectureB1] exampleProgress)"
    by code_simp
  with isCompleted_iff_all_modules_completed
         [of "[markCompleted 2000 exLectureA1, markCompleted 3000 exLectureA2,
               markCompleted 4000 exLectureB1]" 1000 exUser exCourse None exampleDb]
  show ?thesis by (simp add: exampleProgress_def)
qed

subsection \<open>isLectureUnlocked on a fresh document\<close>

text \<open>
  Claim C5 says that a lecture after the next unlocked one is reported with its own
  completion flag. On the fresh document of the example course the next unlocked lecture
  is A1 and no lecture is completed, yet A2, which comes after A1, is reported unlocked:
  the inner loop looks for the next unlocked lecture among the lectures up to the queried
  one, so every later lecture of the same module is unlocked as well.
\<close>

theorem isLectureUnlocked_fresh_second_lecture:
  "getNextUnlockedLecture exampleProgress = Some exLectureA1
   \<and> map lp_lectureId (flattened exampleProgress) = [exLectureA1, exLectureA2, exLectureB1]
   \<and> map lp_isCompleted (flattened exampleProgress) = [False, False, False]
   \<and> isLectureUnlocked exLectureA2 exampleProgress = True
   \<and> isLectureUnlocked exLectureB1 exampleProgress = False"
  by code_simp

subsection \<open>The lecture entry a call changes\<close>

lemma concat_nth:
  "mi < length xss \<Longrightarrow> li < length (xss ! mi) \<Longrightarrow>
   concat xss ! (length (concat (take mi xss)) + li) = xss ! mi ! li"
proof (induction xss arbitrary: mi)
  case Nil
  then show ?case by simp
next
  case (Cons xs xss)
  show ?case
  proof (cases mi)
    case 0
    with Cons.prems show ?thesis by (simp add: nth_append)
  next
    case (Suc k)
    with Cons.prems Cons.IH [of k] show ?thesis by (simp add: nth_append)
  qed
qed

text \<open>
  A call that returns changes one lecture entry: the first one, in the order
  modules-then-lectures, that carries the id.
\<close>

lemma flattened_update:
  assumes "list_ex (\<lambda>l. lp_lectureId l = lectureId) (flattened this)"
  obtains j where
    "findIndex (\<lambda>l. lp_lectureId l = lectureId) (flattened this) = Some j"
    "j < length (flattened this)"
    "flattened (snd (updateLectureProgress now lectureId watchTime isCompleted this))
       = (flattened this)[j := updateLecture now watchTime isCompleted (flattened this ! j)]"
proof -
  let ?P = "\<lambda>l. lp_lectureId l = lectureId"
  let ?xss = "map mp_lectures (p_modules this)"
  from assms obtain mi li where
    mi: "findIndex (\<lambda>md. list_ex ?P (mp_lectures md)) (p_modules this) = Some mi"
    and li: "findIndex ?P (mp_lectures (p_modules this ! mi)) = Some li"
    and u: "updateLectureProgress now lectureId watchTime isCompleted this
       = (Inr (),
          recalculateOverall now
            (this\<lparr>p_modules := (p_modules this)
               [mi := recalculateModule now
                  ((p_modules this ! mi)
                     \<lparr>mp_lectures := (mp_lectures (p_modules this ! mi))
                        [li := updateLecture now watchTime isCompleted
                           (mp_lectures (p_modules this ! mi) ! li)]\<rparr>)]\<rparr>))"
    by (rule updateLectureProgress_present)
  from findIndex_Some [OF mi] have mi_lt: "mi < length (p_modules this)" by simp
  from findIndex_Some [OF li] have li_lt: "li < length (mp_lectures (p_modules this ! mi))" by simp
  let ?j = "length (concat (take mi ?xss)) + li"
  have mi': "findIndex (list_ex ?P) ?xss = Some mi"
    using mi by (simp add: findIndex_map comp_def)
  have li': "findIndex ?P (?xss ! mi) = Some li"
    using li mi_lt by simp
  have j: "findIndex ?P (flattened this) = Some ?j"
    unfolding flattened_def by (rule findIndex_concat [OF mi' li'])
  have nth: "flattened this ! ?j = mp_lectures (p_modules this ! mi) ! li"
    unfolding flattened_def using concat_nth [of mi ?xss li] mi_lt li_lt by simp
  have "flattened (snd (updateLectureProgress now lectureId watchTime isCompleted this))
          = concat (?xss[mi := (?xss ! mi)[li := updateLecture now watchTime isCompleted
                                                  (mp_lectures (p_modules this ! mi) ! li)]])"
    using u mi_lt by (simp add: flattened_def map_update)
  also have "\<dots> = (concat ?xss)[?j := updateLecture now watchTime isCompleted
                                        (mp_lectures (p_modules this ! mi) ! li)]"
    using mi_lt li_lt by (intro concat_update) simp_all
  finally have upd: "flattened (snd (updateLectureProgress now lectureId watchTime isCompleted this))
       = (flattened this)[?j := updateLecture now watchTime isCompleted (flattened this ! ?j)]"
    using nth by (simp add: flattened_def)
  from findIndex_Some [OF j] have "?j < length (flattened this)" by simp
  with j upd that show thesis by blast
qed

lemma lp_isCompleted_updateLecture:
  "lp_isCompleted (updateLecture now watchTime isCompleted lecture)
     = (case isCompleted of None \<Rightarrow> lp_isCompleted lecture | Some c \<Rightarrow> c)"
  by (simp add: updateLecture_def Let_def split: option.splits)

subsection \<open>Sequential order\<close>

lemma completedPrefix_all_False: "list_all (\<lambda>b. \<not> b) fs \<Longrightarrow> completedPrefix fs"
  by (induction fs) auto

lemma completedPrefix_update:
  "completedPrefix fs \<Longrightarrow> j < length fs \<Longrightarrow> \<forall>i<j. fs ! i \<Longrightarrow> completedPrefix (fs[j := True])"
proof (induction fs arbitrary: j)
  case Nil
  then show ?case by simp
next
  case (Cons c cs)
  show ?case
  proof (cases j)
    case 0
    with Cons.prems(1) show ?thesis by (auto simp: completedPrefix_all_False split: if_splits)
  next
    case (Suc k)
    with Cons.prems(3) have c: "c" and k: "\<forall>i<k. cs ! i" by auto
    with Cons.prems Suc Cons.IH [of k] show ?thesis by simp
  qed
qed

lemma before_next_completed:
  assumes n: "getNextUnlockedLecture this = Some lectureId"
    and j: "findIndex (\<lambda>l. lp_lectureId l = lectureId) (flattened this) = Some j"
  shows "\<forall>i<j. lp_isCompleted (flattened this ! i)"
proof -
  from n have "map_option lp_lectureId (find (\<lambda>l. \<not> lp_isCompleted l) (flattened this))
                 = Some lectureId"
    by (simp add: getNextUnlockedLecture_def nextUnlockedSite_def scanModules_find flattened_def)
  then obtain l where l: "find (\<lambda>l. \<not> lp_isCompleted l) (flattened this) = Some l"
    and lid: "lp_lectureId l = lectureId" by auto
  from l obtain k where k: "k < length (flattened this)" "l = flattened this ! k"
    "\<forall>m<k. lp_isCompleted (flattened this ! m)"
    by (auto simp: find_Some_iff)
  from findIndex_Some [OF j] have "\<forall>i<j. lp_lectureId (flattened this ! i) \<noteq> lectureId" by simp
  with k(2) lid have "\<not> k < j" by blast
  then have "j \<le> k" by simp
  with k(3) show ?thesis by simp
qed

lemma sequentialOrder_update:
  assumes s: "sequentialOrder this"
    and c: "isCompleted = None \<or> (isCompleted = Some True \<and> getNextUnlockedLecture this = Some lectureId)"
  shows "sequentialOrder (snd (updateLectureProgress now lectureId watchTime isCompleted this))"
proof (cases "list_ex (\<lambda>l. lp_lectureId l = lectureId) (flattened this)")
  case False
  with s show ?thesis by (simp add: updateLectureProgress_absent)
next
  case True
  then obtain j where
    j: "findIndex (\<lambda>l. lp_lectureId l = lectureId) (flattened this) = Some j"
    and lt: "j < length (flattened this)"
    and u: "flattened (snd (updateLectureProgress now lectureId watchTime isCompleted this))
       = (flattened this)[j := updateLecture now watchTime isCompleted (flattened this ! j)]"
    by (rule flattened_update)
  let ?fs = "map lp_isCompleted (flattened this)"
  from u have flags: "map lp_isCompleted
      (flattened (snd (updateLectureProgress now lectureId watchTime isCompleted this)))
       = ?fs[j := (case isCompleted of None \<Rightarrow> lp_isCompleted (flattened this ! j) | Some c \<Rightarrow> c)]"
    by (simp add: map_update lp_isCompleted_updateLecture)
  show ?thesis
  proof (cases isCompleted)
    case None
    with flags lt have "map lp_isCompleted
      (flattened (snd (updateLectureProgress now lectureId watchTime isCompleted this))) = ?fs"
      by (simp add: list_update_same_conv)
    with s show ?thesis by (simp add: sequentialOrder_def)
  next
    case (Some b)
    with c have b: "b" and n: "getNextUnlockedLecture this = Some lectureId" by auto
    from before_next_completed [OF n j] lt have "\<forall>i<j. ?fs ! i" by simp
    with s lt have "completedPrefix (?fs[j := True])"
      by (intro completedPrefix_update) (simp_all add: sequentialOrder_def)
    with flags Some b show ?thesis by (simp add: sequentialOrder_def)
  qed
qed

lemma sequentialOrder_initializeForCourse:
  "sequentialOrder (initializeForCourse now userId courseId existing db)"
proof -
  have "list_all (\<lambda>b. \<not> b)
          (map lp_isCompleted (flattened (initializeForCourse now userId courseId existing db)))"
    by (auto simp: list_all_iff flattened_def initializeForCourse_def Let_def)
  then show ?thesis unfolding sequentialOrder_def by (rule completedPrefix_all_False)
qed

text \<open>
  Claim C1, as stated, fails: \<open>updateLectureProgress\<close> does not look at the lectures before
  the one it is given. On the fresh document of the example course, marking A2 completed
  returns normally and leaves A2 completed after A1, which is not.
\<close>

theorem sequential_unlocking_counterexample:
  "fst (updateLectureProgress 2000 exLectureA2 None (Some True) exampleProgress) = Inr ()
   \<and> map lp_isCompleted (flattened (applyCalls [markCompleted 2000 exLectureA2] exampleProgress))
       = [False, True, False]
   \<and> \<not> sequentialOrder (applyCalls [markCompleted 2000 exLectureA2] exampleProgress)"
  by code_simp

lemma sequentialOrder_applyCalls:
  "sequentialOrder this \<Longrightarrow> followsUnlockOrder calls this \<Longrightarrow>
   sequentialOrder (applyCalls calls this)"
proof (induction calls arbitrary: this)
  case Nil
  then show ?case by simp
next
  case (Cons c calls)
  let ?n = "snd (updateLectureProgress (u_now c) (u_lectureId c) (u_watchTime c) (u_isCompleted c) this)"
  from Cons.prems have
    ok: "u_isCompleted c = None
         \<or> (u_isCompleted c = Some True \<and> getNextUnlockedLecture this = Some (u_lectureId c))"
    and rest: "followsUnlockOrder calls ?n" by simp_all
  from Cons.prems(1) ok have "sequentialOrder ?n" by (rule sequentialOrder_update)
  from Cons.IH [OF this rest] show ?case by simp
qed

text \<open>
  Claim C1, amended. The document \<open>initializeForCourse\<close> returns is in sequential order;
  a call of \<open>updateLectureProgress\<close> keeps a document in sequential order when it leaves
  \<open>isCompleted\<close> unset or marks completed the lecture that \<open>getNextUnlockedLecture\<close>
  returns; so every document reached from \<open>initializeForCourse\<close> by calls that follow
  the unlock order is in sequential order.
\<close>

theorem sequentialOrder_kept_in_unlock_order:
  "sequentialOrder (initializeForCourse now0 userId courseId existing db)
   \<and> (sequentialOrder this
        \<and> (isCompleted = None
             \<or> (isCompleted = Some True \<and> getNextUnlockedLecture this = Some lectureId))
       \<longrightarrow> sequentialOrder
             (snd (updateLectureProgress now lectureId watchTime isCompleted this)))
   \<and> (followsUnlockOrder calls (initializeForCourse now0 userId courseId existing db)
       \<longrightarrow> sequentialOrder
             (applyCalls calls (initializeForCourse now0 userId courseId existing db)))"
  by (simp add: sequentialOrder_initializeForCourse sequentialOrder_update
      sequentialOrder_applyCalls)

theorem sequentialOrder_kept_witness:
  "sequentialOrder exampleProgress
   \<and> getNextUnlockedLecture exampleProgress = Some exLectureA1
   \<and> map lp_isCompleted
        (flattened (snd (updateLectureProgress 2000 exLectureA1 None (Some True) exampleProgress)))
       = [True, False, False]
   \<and> sequentialOrder (snd (updateLectureProgress 2000 exLectureA1 None (Some True) exampleProgress))
   \<and> followsUnlockOrder [markCompleted 2000 exLectureA1, markCompleted 3000 exLectureA2]
        exampleProgress
   \<and> sequentialOrder
        (applyCalls [markCompleted 2000 exLectureA1, markCompleted 3000 exLectureA2]
           exampleProgress)"
proof -
  have n: "getNextUnlockedLecture exampleProgress = Some exLectureA1"
    by code_simp
  have f: "map lp_isCompleted
        (flattened (snd (updateLectureProgress 2000 exLectureA1 None (Some True) exampleProgress)))
       = [True, False, False]"
    by code_simp
  have o: "followsUnlockOrder [markCompleted 2000 exLectureA1, markCompleted 3000 exLectureA2]
             exampleProgress"
    by code_simp
  from sequentialOrder_kept_in_unlock_order
         [of 1000 exUser exCourse None exampleDb exampleProgress "Some True" exLectureA1 2000 None
             "[markCompleted 2000 exLectureA1, markCompleted 3000 exLectureA2]"]
       n f o
  show ?thesis by (simp add: exampleProgress_def)
qed

subsection \<open>The counters of a reachable document\<close>

lemma lp_lectureId_updateLecture [simp]:
  "lp_lectureId (updateLecture now watchTime isCompleted lecture) = lp_lectureId lecture"
  by (simp add: updateLecture_def Let_def split: option.splits)

lemma flags_after_call:
  "map lp_lectureId (flattened (snd (updateLectureProgress now lectureId watchTime isCompleted this)))
     = map lp_lectureId (flattened this)
   \<and> map lp_isCompleted
        (flattened (snd (updateLectureProgress now lectureId watchTime isCompleted this)))
     = (case findIndex (\<lambda>x. x = lectureId) (map lp_lectureId (flattened this)) of
          None \<Rightarrow> map lp_isCompleted (flattened this)
        | Some j \<Rightarrow>
            (case isCompleted of
               None \<Rightarrow> map lp_isCompleted (flattened this)
             | Some b \<Rightarrow> (map lp_isCompleted (flattened this))[j := b]))"
proof (cases "list_ex (\<lambda>l. lp_lectureId l = lectureId) (flattened this)")
  case False
  then have "findIndex (\<lambda>x. x = lectureId) (map lp_lectureId (flattened this)) = None"
    by (simp add: findIndex_map comp_def findIndex_None_iff)
  with False show ?thesis by (simp add: updateLectureProgress_absent)
next
  case True
  then obtain j where
    j: "findIndex (\<lambda>l. lp_lectureId l = lectureId) (flattened this) = Some j"
    and lt: "j < length (flattened this)"
    and u: "flattened (snd (updateLectureProgress now lectureId watchTime isCompleted this))
       = (flattened this)[j := updateLecture now watchTime isCompleted (flattened this ! j)]"
    by (rule flattened_update)
  from j have j': "findIndex (\<lambda>x. x = lectureId) (map lp_lectureId (flattened this)) = Some j"
    by (simp add: findIndex_map comp_def)
  have ids: "map lp_lectureId ((flattened this)[j := updateLecture now watchTime isCompleted (flattened this ! j)])
               = map lp_lectureId (flattened this)"
    using lt by (simp add: map_update list_update_same_conv)
  have flags: "map lp_isCompleted ((flattened this)[j := updateLecture now watchTime isCompleted (flattened this ! j)])
      = (map lp_isCompleted (flattened this))
          [j := (case isCompleted of None \<Rightarrow> lp_isCompleted (flattened this ! j) | Some b \<Rightarrow> b)]"
    by (simp add: map_update lp_isCompleted_updateLecture)
  have idsF: "map lp_lectureId
                (flattened (snd (updateLectureProgress now lectureId watchTime isCompleted this)))
                = map lp_lectureId (flattened this)"
    by (simp only: u ids)
  have flagsF: "map lp_isCompleted
                  (flattened (snd (updateLectureProgress now lectureId watchTime isCompleted this)))
      = (map lp_isCompleted (flattened this))
          [j := (case isCompleted of None \<Rightarrow> lp_isCompleted (flattened this ! j) | Some b \<Rightarrow> b)]"
    by (simp only: u flags)
  have same: "(map lp_isCompleted (flattened this))[j := lp_isCompleted (flattened this ! j)]
                = map lp_isCompleted (flattened this)"
    using lt by (simp add: list_update_same_conv)
  show ?thesis
    unfolding idsF flagsF j' by (cases isCompleted) (simp_all add: same)
qed

lemma flags_after_calls:
  "map lp_isCompleted (flattened (applyCalls calls this))
     = flagsAfterCalls (map lp_lectureId (flattened this)) calls (map lp_isCompleted (flattened this))"
proof (induction calls arbitrary: this)
  case Nil
  show ?case by simp
next
  case (Cons c calls)
  let ?n = "snd (updateLectureProgress (u_now c) (u_lectureId c) (u_watchTime c) (u_isCompleted c) this)"
  from flags_after_call [of "u_now c" "u_lectureId c" "u_watchTime c" "u_isCompleted c" this]
  have ids: "map lp_lectureId (flattened ?n) = map lp_lectureId (flattened this)"
    and flags: "map lp_isCompleted (flattened ?n)
     = (case findIndex (\<lambda>x. x = u_lectureId c) (map lp_lectureId (flattened this)) of
          None \<Rightarrow> map lp_isCompleted (flattened this)
        | Some j \<Rightarrow>
            (case u_isCompleted c of
               None \<Rightarrow> map lp_isCompleted (flattened this)
             | Some b \<Rightarrow> (map lp_isCompleted (flattened this))[j := b]))"
    by simp_all
  show ?case
    by (simp only: applyCalls.simps flagsAfterCalls.simps Cons.IH [of ?n] ids flags)
qed

text \<open>The counters count: the module entries, and the sum over them.\<close>

lemma foldl_completedLectures:
  "modulesCounted ms \<Longrightarrow>
   foldl (\<lambda>total md. total + mp_completedLectures md) a ms
     = a + length (filter lp_isCompleted (concat (map mp_lectures ms)))"
  by (induction ms arbitrary: a) (simp_all add: modulesCounted_def)

lemma modulesCounted_update:
  "modulesCounted ms \<Longrightarrow> mi < length ms \<Longrightarrow>
   modulesCounted (ms[mi := recalculateModule now ((ms ! mi)\<lparr>mp_lectures := ls\<rparr>)])"
proof -
  assume a: "modulesCounted ms" "mi < length ms"
  have "mp_completedLectures (recalculateModule now ((ms ! mi)\<lparr>mp_lectures := ls\<rparr>))
          = length (filter lp_isCompleted (mp_lectures (recalculateModule now ((ms ! mi)\<lparr>mp_lectures := ls\<rparr>))))"
    by (simp add: recalculateModule_def Let_def)
  with a show ?thesis
    unfolding modulesCounted_def list_all_iff
    by (metis insertE set_update_subset_insert subsetD)
qed

lemma p_completedLectures_recalculateOverall:
  "p_completedLectures (recalculateOverall now this)
     = foldl (\<lambda>total md. total + mp_completedLectures md) 0 (p_modules this)"
  by (simp add: recalculateOverall_def Let_def)

lemma counted_update:
  assumes "counted this"
  shows "counted (snd (updateLectureProgress now lectureId watchTime isCompleted this))"
proof (cases "list_ex (\<lambda>l. lp_lectureId l = lectureId) (flattened this)")
  case False
  with assms show ?thesis by (simp add: updateLectureProgress_absent)
next
  case True
  then obtain mi li where
    mi: "findIndex (\<lambda>md. list_ex (\<lambda>l. lp_lectureId l = lectureId) (mp_lectures md)) (p_modules this)
           = Some mi"
    and u: "updateLectureProgress now lectureId watchTime isCompleted this
       = (Inr (),
          recalculateOverall now
            (this\<lparr>p_modules := (p_modules this)
               [mi := recalculateModule now
                  ((p_modules this ! mi)
                     \<lparr>mp_lectures := (mp_lectures (p_modules this ! mi))
                        [li := updateLecture now watchTime isCompleted
                           (mp_lectures (p_modules this ! mi) ! li)]\<rparr>)]\<rparr>))"
    by (rule updateLectureProgress_present)
  from findIndex_Some [OF mi] have lt: "mi < length (p_modules this)" by simp
  from assms have mc: "modulesCounted (p_modules this)" by (simp add: counted_def)
  let ?ms = "(p_modules this)
               [mi := recalculateModule now
                  ((p_modules this ! mi)
                     \<lparr>mp_lectures := (mp_lectures (p_modules this ! mi))
                        [li := updateLecture now watchTime isCompleted
                           (mp_lectures (p_modules this ! mi) ! li)]\<rparr>)]"
  have m': "modulesCounted ?ms" using mc lt by (rule modulesCounted_update)
  from foldl_completedLectures [OF m', of 0] u m' show ?thesis
    by (simp add: counted_def p_completedLectures_recalculateOverall flattened_def)
qed

lemma counted_applyCalls: "counted this \<Longrightarrow> counted (applyCalls calls this)"
  by (induction calls arbitrary: this) (simp_all add: counted_update)

lemma counted_initializeForCourse:
  "counted (initializeForCourse now userId courseId existing db)"
proof -
  have "list_all (\<lambda>l. \<not> lp_isCompleted l)
          (flattened (initializeForCourse now userId courseId existing db))"
    by (auto simp: list_all_iff flattened_def initializeForCourse_def Let_def)
  then have "filter lp_isCompleted (flattened (initializeForCourse now userId courseId existing db)) = []"
    by (simp add: filter_empty_conv list_all_iff)
  moreover have "modulesCounted (p_modules (initializeForCourse now userId courseId existing db))"
    by (simp add: modulesCounted_def initializeForCourse_def Let_def list_all_iff
        filter_empty_conv)
  moreover have "p_completedLectures (initializeForCourse now userId courseId existing db) = 0"
    by (simp add: initializeForCourse_def Let_def)
  ultimately show ?thesis by (simp add: counted_def)
qed

lemma p_totalLectures_applyCalls:
  "p_totalLectures (applyCalls calls this) = p_totalLectures this"
proof (induction calls arbitrary: this)
  case Nil
  show ?case by simp
next
  case (Cons c calls)
  have "p_totalLectures (snd (updateLectureProgress (u_now c) (u_lectureId c) (u_watchTime c)
                                (u_isCompleted c) this)) = p_totalLectures this"
  proof (cases "list_ex (\<lambda>l. lp_lectureId l = u_lectureId c) (flattened this)")
    case False
    then show ?thesis by (simp add: updateLectureProgress_absent)
  next
    case True
    then show ?thesis
      by (rule updateLectureProgress_present [where now = "u_now c" and watchTime = "u_watchTime c"
            and isCompleted = "u_isCompleted c"]) simp
  qed
  with Cons.IH show ?case by simp
qed

subsection \<open>The stored percentage and the rounded ratio\<close>

lemma longCourse_initial:
  "map lp_lectureId (flattened (initializeForCourse 1000 exUser exCourse None longCourseDb))
     = map exLectureId [0..<40]"
  "map lp_isCompleted (flattened (initializeForCourse 1000 exUser exCourse None longCourseDb))
     = replicate 40 False"
  "p_totalLectures (initializeForCourse 1000 exUser exCourse None longCourseDb) = 40"
  by code_simp+

lemma longCourse_flags:
  "length (filter (\<lambda>b. b)
     (flagsAfterCalls (map exLectureId [0..<40])
        (map (\<lambda>k. markCompleted (2000 + k) (exLectureId k)) [0..<23]) (replicate 40 False))) = 23"
  by code_simp

lemma filter_flags: "length (filter lp_isCompleted ls) = length (filter (\<lambda>b. b) (map lp_isCompleted ls))"
  by (simp add: filter_map comp_def)

text \<open>
  Claim C4 says that the stored percentage is the ratio of the counters, times 100,
  rounded. In the document reached from \<open>initializeForCourse\<close> on a course of 40 lectures
  by marking the first 23 completed, the counters are 23 and 40 and the ratio is 57.5
  exactly, which rounds to 58; the code stores 57, because the double nearest to 23/40,
  multiplied by 100, is rounded to a double just below 57.5. A tie does not always go
  down either: 1 of 8 lectures is 12.5 and gives 13.
\<close>

theorem progressPercentage_23_of_40_is_57:
  "p_completedLectures first23Completed = 23
   \<and> p_totalLectures first23Completed = 40
   \<and> p_progressPercentage first23Completed = 57
   \<and> roundedRatio 23 40 = 58
   \<and> (23 / 40 * 100 :: rat) = 57 + 1 / 2
   \<and> percentage 1 8 = 13"
proof -
  let ?init = "initializeForCourse 1000 exUser exCourse None longCourseDb"
  let ?calls = "map (\<lambda>k. markCompleted (2000 + k) (exLectureId k)) [0..<23]"
  have c: "counted (applyCalls ?calls ?init)"
    by (intro counted_applyCalls counted_initializeForCourse)
  have "p_completedLectures (applyCalls ?calls ?init)
          = length (filter (\<lambda>b. b) (map lp_isCompleted (flattened (applyCalls ?calls ?init))))"
    using c by (simp only: counted_def filter_flags)
  also have "\<dots> = 23"
    by (simp only: flags_after_calls longCourse_initial longCourse_flags)
  finally have completed: "p_completedLectures first23Completed = 23"
    by (simp only: first23Completed_def)
  have total: "p_totalLectures first23Completed = 40"
    by (simp only: first23Completed_def p_totalLectures_applyCalls longCourse_initial)
  have "percentageConsistent (applyCalls ?calls ?init)"
    by (intro percentageConsistent_applyCalls percentageConsistent_initializeForCourse)
  then have "p_progressPercentage first23Completed
               = percentage (p_completedLectures first23Completed) (p_totalLectures first23Completed)"
    by (simp only: percentageConsistent_alt first23Completed_def)
  also have "\<dots> = 57"
    using percentage_23_of_40 by (simp only: completed total)
  finally have stored: "p_progressPercentage first23Completed = 57" .
  have exact: "roundedRatio 23 40 = 58" "(23 / 40 * 100 :: rat) = 57 + 1 / 2" "percentage 1 8 = 13"
    by code_simp+
  from completed total stored exact show ?thesis by (simp only: simp_thms)
qed

section \<open>Statistics\<close>

lemma find_map_preserving:
  "(\<And>x. P (f x) = P x) \<Longrightarrow> find P (map f xs) = map_option f (find P xs)"
  by (induction xs) auto

lemma calculateStats_collections [simp]:
  "db_modules (snd (calculateStats courseId db)) = db_modules db"
  "db_lectures (snd (calculateStats courseId db)) = db_lectures db"
  "db_indexesEnforced (snd (calculateStats courseId db)) = db_indexesEnforced db"
  by (simp_all add: calculateStats_def Let_def)

lemma calculateStats_fst:
  "db_modules db' = db_modules db \<Longrightarrow> db_lectures db' = db_lectures db \<Longrightarrow>
   fst (calculateStats courseId db') = fst (calculateStats courseId db)"
  by (simp add: calculateStats_def Let_def)

lemma calculateStats_idem:
  "calculateStats courseId (snd (calculateStats courseId db)) = calculateStats courseId db"
  by (simp add: calculateStats_def Let_def comp_def cong: if_cong)

lemma modulePostSave_collections [simp]:
  "db_modules (modulePostSave courseId db) = db_modules db"
  "db_lectures (modulePostSave courseId db) = db_lectures db"
  "db_indexesEnforced (modulePostSave courseId db) = db_indexesEnforced db"
  by (simp_all add: modulePostSave_def split: option.splits)

lemma find_course_calculateStats:
  "find (\<lambda>c. c_id c = i) (db_courses (snd (calculateStats courseId db)))
     = map_option (\<lambda>c. if c_id c = courseId
                         then c\<lparr>c_totalModules := cs_totalModules (fst (calculateStats courseId db)),
                                c_totalLectures := cs_totalLectures (fst (calculateStats courseId db)),
                                c_totalDuration := cs_totalDuration (fst (calculateStats courseId db))\<rparr>
                         else c)
         (find (\<lambda>c. c_id c = i) (db_courses db))"
proof -
  have "db_courses (snd (calculateStats courseId db))
          = map (\<lambda>c. if c_id c = courseId
                         then c\<lparr>c_totalModules := cs_totalModules (fst (calculateStats courseId db)),
                                c_totalLectures := cs_totalLectures (fst (calculateStats courseId db)),
                                c_totalDuration := cs_totalDuration (fst (calculateStats courseId db))\<rparr>
                         else c) (db_courses db)"
    by (simp add: calculateStats_def Let_def split: list.splits)
  then show ?thesis by (simp add: find_map_preserving)
qed

lemma modulePostSave_idem:
  "modulePostSave courseId (modulePostSave courseId db) = modulePostSave courseId db"
proof (cases "find (\<lambda>c. c_id c = courseId) (db_courses db)")
  case None
  then show ?thesis by (simp add: modulePostSave_def)
next
  case (Some course)
  from Some have i: "c_id course = courseId"
    by (auto simp: find_Some_iff)
  from Some i have m: "modulePostSave courseId db = snd (calculateStats courseId db)"
    by (simp add: modulePostSave_def)
  have "modulePostSave courseId (snd (calculateStats courseId db))
          = snd (calculateStats courseId (snd (calculateStats courseId db)))"
    using Some i by (simp add: modulePostSave_def find_course_calculateStats)
  with m show ?thesis by (simp add: calculateStats_idem)
qed

lemma calculateLectureStats_fst:
  "db_lectures db' = db_lectures db \<Longrightarrow>
   fst (calculateLectureStats this db') = fst (calculateLectureStats this db)"
  by (simp add: calculateLectureStats_def Let_def)

lemma calculateLectureStats_lectures [simp]:
  "db_lectures (snd (calculateLectureStats this db)) = db_lectures db"
  "db_indexesEnforced (snd (calculateLectureStats this db)) = db_indexesEnforced db"
  by (simp_all add: calculateLectureStats_def Let_def)

text \<open>Saving the counters a second time writes what is already there.\<close>

lemma set_counters_twice:
  "map (\<lambda>m. if m_id m = i then m\<lparr>m_lectureCount := a, m_totalDuration := b\<rparr> else m)
     (map (\<lambda>m. if m_id m = i then m\<lparr>m_lectureCount := a, m_totalDuration := b\<rparr> else m) ms)
   = map (\<lambda>m. if m_id m = i then m\<lparr>m_lectureCount := a, m_totalDuration := b\<rparr> else m) ms"
  by (induction ms) auto

lemma modulePostSave_update_modules:
  "modulePostSave courseId (db\<lparr>db_modules := ms\<rparr>)\<lparr>db_modules := ms'\<rparr>
     = modulePostSave courseId (db\<lparr>db_modules := ms\<rparr>)
   \<longleftrightarrow> ms' = ms"
proof -
  have "db_modules (modulePostSave courseId (db\<lparr>db_modules := ms\<rparr>)) = ms" by simp
  then show ?thesis
    by (metis db.select_convs(2) db.surjective db.update_convs(2))
qed

lemma calculateLectureStats_this:
  assumes a: "m_id t' = m_id t" and b: "m_courseId t' = m_courseId t"
  shows "calculateLectureStats t' db = calculateLectureStats t db"
  unfolding calculateLectureStats_def a b by (rule refl)

lemma calculateLectureStats_idem:
  fixes this :: "('n::{zero,plus}) moduleDoc"
  shows "calculateLectureStats (this\<lparr>m_lectureCount := a, m_totalDuration := b\<rparr>)
     (snd (calculateLectureStats this db))
   = calculateLectureStats this db"
proof -
  define stats where "stats =
    (case filter (\<lambda>l. l_moduleId l = m_id this \<and> l_isActive l) (db_lectures db) of
       [] \<Rightarrow> \<lparr>ls_lectureCount = 0, ls_totalDuration = 0\<rparr>
     | _ # _ \<Rightarrow>
         \<lparr>ls_lectureCount =
            length (filter (\<lambda>l. l_moduleId l = m_id this \<and> l_isActive l) (db_lectures db)),
          ls_totalDuration =
            sumDuration (filter (\<lambda>l. l_moduleId l = m_id this \<and> l_isActive l) (db_lectures db))\<rparr>)"
  define upd :: "'n moduleDoc \<Rightarrow> 'n moduleDoc" where "upd = (\<lambda>m. if m_id m = m_id this
                   then m\<lparr>m_lectureCount := ls_lectureCount stats,
                          m_totalDuration := ls_totalDuration stats\<rparr>
                   else m)"
  define db2 where "db2 = modulePostSave (m_courseId this) (db\<lparr>db_modules := map upd (db_modules db)\<rparr>)"
  have r: "calculateLectureStats this db = (stats, db2)"
    unfolding calculateLectureStats_def Let_def stats_def upd_def db2_def by (rule refl)
  have l: "db_lectures db2 = db_lectures db" and m: "db_modules db2 = map upd (db_modules db)"
    by (simp_all add: db2_def)
  have twice: "map upd (map upd (db_modules db)) = map upd (db_modules db)"
    unfolding upd_def by (rule set_counters_twice)
  have same: "db2\<lparr>db_modules := map upd (db_modules db2)\<rparr> = db2"
    unfolding m twice unfolding db2_def by (simp add: modulePostSave_update_modules)
  have "calculateLectureStats (this\<lparr>m_lectureCount := a, m_totalDuration := b\<rparr>) db2
          = calculateLectureStats this db2"
    by (rule calculateLectureStats_this) simp_all
  also have "\<dots> = (stats, modulePostSave (m_courseId this) (db2\<lparr>db_modules := map upd (db_modules db2)\<rparr>))"
    unfolding calculateLectureStats_def Let_def stats_def upd_def l by (rule refl)
  also have "\<dots> = (stats, db2)"
    unfolding same unfolding db2_def by (simp only: modulePostSave_idem)
  finally show ?thesis using r by simp
qed

text \<open>
  Claim C9. \<open>calculateLectureStats\<close> (RecomputeModuleStats) and \<open>calculateStats\<close>
  (RecomputeCourseStats) are idempotent: a second call right after the first, on the same
  module document (with the counters the first call assigned, or any others) or the same
  course, returns the same statistics and leaves the database as the first call left it.
\<close>

theorem recompute_stats_idempotent:
  "calculateLectureStats (this\<lparr>m_lectureCount := a, m_totalDuration := b\<rparr>)
     (snd (calculateLectureStats this db))
   = (fst (calculateLectureStats this db), snd (calculateLectureStats this db))
   \<and> calculateStats courseId (snd (calculateStats courseId db'))
     = (fst (calculateStats courseId db'), snd (calculateStats courseId db'))"
  by (simp add: calculateLectureStats_idem calculateStats_idem)

section \<open>Reordering modules\<close>

text \<open>Validation failures of the service leave the database as it was.\<close>

lemma filter_ids_length_less:
  assumes d: "distinct (map m_id ms)"
    and x: "x \<in> set ids" and nx: "\<not> list_ex (\<lambda>m. m_id m = x \<and> m_courseId m = c) ms"
  shows "length (filter (\<lambda>m. m_id m \<in> set ids \<and> m_courseId m = c) ms) < length ids"
proof -
  let ?f = "filter (\<lambda>m. m_id m \<in> set ids \<and> m_courseId m = c) ms"
  from d have df: "distinct (map m_id ?f)" by (simp add: distinct_map_filter)
  have sub: "set (map m_id ?f) \<subseteq> set ids - {x}"
    using nx by (auto simp: list_ex_iff)
  have "length ?f = card (set (map m_id ?f))"
    using df distinct_card [of "map m_id ?f"] by simp
  also have "\<dots> \<le> card (set ids - {x})"
    using sub by (intro card_mono) simp_all
  also have "\<dots> < card (set ids)"
    using x by (intro psubset_card_mono) auto
  also have "\<dots> \<le> length ids" by (rule card_length)
  finally show ?thesis .
qed

lemma reorderModules_foreign:
  assumes "distinct (map m_id (db_modules db))"
    and "list_ex (\<lambda>i. \<not> list_ex (\<lambda>m. m_id m = i \<and> m_courseId m = courseId) (db_modules db)) moduleIds"
  shows "reorderModules courseId moduleIds db
           = (Inl (if find (\<lambda>c. c_id c = courseId) (db_courses db) = None
                   then CourseNotFound else ModulesNotInCourse), db)"
proof -
  from assms(2) obtain x where x: "x \<in> set moduleIds"
    "\<not> list_ex (\<lambda>m. m_id m = x \<and> m_courseId m = courseId) (db_modules db)"
    by (auto simp: list_ex_iff)
  from filter_ids_length_less [OF assms(1) x]
  show ?thesis by (simp add: reorderModules_def Let_def split: option.splits)
qed

text \<open>
  Claim C7. For an authenticated request, ReorderModules answers 400 (bad request) when
  \<open>moduleIds\<close> is empty, and when some id in it is not the id of a module of the course
  (the service then throws "Some modules do not belong to this course", or "course not
  found" when the course itself is missing); in both cases the database is unchanged.
  Module ids are unique in the collection.
\<close>

theorem reorderModules_validation_failures:
  "authenticated \<and> distinct (map m_id (db_modules db))
   \<and> (moduleIds = []
       \<or> list_ex (\<lambda>i. \<not> list_ex (\<lambda>m. m_id m = i \<and> m_courseId m = courseId) (db_modules db))
            moduleIds)
   \<longrightarrow> reorderModulesController authenticated courseId moduleIds db
         = (Reply BAD_REQUEST False
              (if moduleIds = [] then MsgModuleIdsRequired
               else if find (\<lambda>c. c_id c = courseId) (db_courses db) = None
               then MsgError CourseNotFound
               else MsgError ModulesNotInCourse) [],
            db)"
  by (auto simp: reorderModulesController_def reorderModules_foreign)

theorem reorderModules_validation_witness:
  "reorderModulesController True exCourse [] exampleDb
     = (Reply BAD_REQUEST False MsgModuleIdsRequired [], exampleDb)
   \<and> reorderModulesController True exCourse [exModuleB, exUnknown] exampleDb
     = (Reply BAD_REQUEST False (MsgError ModulesNotInCourse) [], exampleDb)"
proof -
  have d: "distinct (map m_id (db_modules exampleDb))"
    by code_simp
  have f: "list_ex (\<lambda>i. \<not> list_ex (\<lambda>m. m_id m = i \<and> m_courseId m = exCourse) (db_modules exampleDb))
             [exModuleB, exUnknown]"
    by code_simp
  have c: "find (\<lambda>c. c_id c = exCourse) (db_courses exampleDb) \<noteq> None"
    by code_simp
  have n: "[exModuleB, exUnknown] \<noteq> []" by simp
  from reorderModules_validation_failures [of True exampleDb "[]" exCourse] d
  have 1: "reorderModulesController True exCourse [] exampleDb
     = (Reply BAD_REQUEST False MsgModuleIdsRequired [], exampleDb)" by simp
  from reorderModules_validation_failures [of True exampleDb "[exModuleB, exUnknown]" exCourse] d f c
  have 2: "reorderModulesController True exCourse [exModuleB, exUnknown] exampleDb
     = (Reply BAD_REQUEST False (MsgError ModulesNotInCourse) [], exampleDb)"
    by (simp only: n if_False if_True simp_thms)
  from 1 2 show ?thesis by simp
qed

text \<open>The service alone accepts an empty list: nothing to check, nothing to write.\<close>

lemma reorderModules_empty_service:
  "find (\<lambda>c. c_id c = courseId) (db_courses db) \<noteq> None \<Longrightarrow>
   reorderModules courseId [] db = (Inr [], db)"
  by (auto simp: reorderModules_def)

subsection \<open>The numbers after a reordering that returns\<close>

lemma find_None_iff_list_ex: "find P xs = None \<longleftrightarrow> \<not> list_ex P xs"
  by (induction xs) auto

lemma updateModuleNumber_Inr:
  assumes "updateModuleNumber x n db = (Inr r, db')"
  shows "db' = db\<lparr>db_modules :=
                   map (\<lambda>m. if m_id m = x then m\<lparr>m_moduleNumber := n\<rparr> else m) (db_modules db)\<rparr>"
proof (cases "find (\<lambda>m. m_id m = x) (db_modules db)")
  case None
  then have "\<forall>m \<in> set (db_modules db). m_id m \<noteq> x"
    by (simp add: find_None_iff_list_ex list_ex_iff)
  then have "map (\<lambda>m. if m_id m = x then m\<lparr>m_moduleNumber := n\<rparr> else m) (db_modules db)
               = db_modules db"
    by (simp add: map_idI)
  with None assms show ?thesis by (simp add: updateModuleNumber_def)
next
  case (Some m)
  with assms show ?thesis by (auto simp: updateModuleNumber_def split: if_splits)
qed

lemma reorderLoop_Inr:
  "reorderLoop ids i acc db = (Inr r, db') \<Longrightarrow> distinct ids \<Longrightarrow>
   db' = db\<lparr>db_modules := map (renumbered ids i) (db_modules db)\<rparr>"
proof (induction ids arbitrary: i acc db)
  case Nil
  then show ?case by (simp add: renumbered_def)
next
  case (Cons x rest)
  from Cons.prems(1) obtain o1 db1 acc1 where
    u: "updateModuleNumber x (i + 1) db = (Inr o1, db1)"
    and l: "reorderLoop rest (i + 1) acc1 db1 = (Inr r, db')"
    by (auto split: prod.splits sum.splits option.splits)
  from Cons.prems(2) have d: "distinct rest" and nx: "x \<notin> set rest" by simp_all
  have db1: "db1 = db\<lparr>db_modules :=
                   map (\<lambda>m. if m_id m = x then m\<lparr>m_moduleNumber := i + 1\<rparr> else m) (db_modules db)\<rparr>"
    using u by (rule updateModuleNumber_Inr)
  have n: "findIndex (\<lambda>y. y = x) rest = None"
    using nx by (simp add: findIndex_None_iff list_ex_iff)
  have pt: "renumbered rest (Suc i) (if m_id m = x then m\<lparr>m_moduleNumber := i + 1\<rparr> else m)
              = renumbered (x # rest) i m" for m :: "'a moduleDoc"
    using n by (cases "findIndex (\<lambda>y. y = m_id m) rest") (auto simp: renumbered_def)
  from Cons.IH [OF l d] db1 show ?case
    by (simp add: pt comp_def)
qed

lemma findIndex_distinct:
  "distinct xs \<Longrightarrow> map (\<lambda>x. findIndex (\<lambda>y. y = x) xs) xs = map Some [0..<length xs]"
proof (induction xs)
  case Nil
  then show ?case by simp
next
  case (Cons a xs)
  then have IH: "map (\<lambda>x. findIndex (\<lambda>y. y = x) xs) xs = map Some [0..<length xs]"
    and a: "a \<notin> set xs" by simp_all
  have "map (\<lambda>x. findIndex (\<lambda>y. y = x) (a # xs)) xs
          = map (map_option Suc) (map (\<lambda>x. findIndex (\<lambda>y. y = x) xs) xs)"
    using a by auto
  also have "\<dots> = map Some (map Suc [0..<length xs])"
    by (simp add: IH)
  finally show ?case
    by (simp add: map_Suc_upt upt_conv_Cons del: upt_Suc)
qed

lemma renumbered_numbers:
  assumes d: "distinct ids"
  shows "mset (map (numberOf ids) ids)
           = mset [1..<Suc (length ids)]"
proof -
  have "map (numberOf ids) ids
          = map (\<lambda>r. case r of Some j \<Rightarrow> j + 1 | None \<Rightarrow> 0) (map (\<lambda>x. findIndex (\<lambda>y. y = x) ids) ids)"
    unfolding numberOf_def map_map comp_def by (rule refl)
  also have "\<dots> = map Suc [0..<length ids]"
    by (simp only: findIndex_distinct [OF d]) simp
  finally show ?thesis by (simp add: map_Suc_upt)
qed

lemma reorderModules_all_named:
  assumes d: "distinct (map m_id (db_modules db))"
    and ok: "fst (reorderModules courseId moduleIds db) = Inr r"
    and all: "list_all (\<lambda>m. m_courseId m = courseId \<longrightarrow> m_id m \<in> set moduleIds) (db_modules db)"
  shows "mset (moduleNumbers courseId (snd (reorderModules courseId moduleIds db)))
           = mset [1..<Suc (length moduleIds)]"
    and "length (moduleNumbers courseId (snd (reorderModules courseId moduleIds db)))
           = length moduleIds"
proof -
  let ?cms = "filter (\<lambda>m. m_courseId m = courseId) (db_modules db)"
  have same: "filter (\<lambda>m. m_id m \<in> set moduleIds \<and> m_courseId m = courseId) (db_modules db) = ?cms"
    using all by (intro filter_cong) (auto simp: list_all_iff)
  from ok same have len: "length ?cms = length moduleIds"
    and loop: "fst (reorderLoop moduleIds 0 [] db) = Inr r"
    and res: "reorderModules courseId moduleIds db = reorderLoop moduleIds 0 [] db"
    by (auto simp: reorderModules_def Let_def split: option.splits if_splits)
  have dc: "distinct (map m_id ?cms)" using d by (simp add: distinct_map_filter)
  have sub: "set (map m_id ?cms) \<subseteq> set moduleIds"
    using all by (auto simp: list_all_iff)
  have "card (set (map m_id ?cms)) = length moduleIds"
    using dc len distinct_card [of "map m_id ?cms"] by simp
  moreover have "card (set (map m_id ?cms)) \<le> card (set moduleIds)"
    using sub by (intro card_mono) simp_all
  moreover have "card (set moduleIds) \<le> length moduleIds" by (rule card_length)
  ultimately have c: "card (set moduleIds) = length moduleIds"
    and ceq: "card (set (map m_id ?cms)) = card (set moduleIds)" by simp_all
  from c have di: "distinct moduleIds" by (rule card_distinct)
  from sub ceq have seteq: "set (map m_id ?cms) = set moduleIds"
    by (intro card_subset_eq) simp_all
  have perm: "mset (map m_id ?cms) = mset moduleIds"
    using set_eq_iff_mset_eq_distinct [OF dc di] seteq by blast
  obtain db' where l: "reorderLoop moduleIds 0 [] db = (Inr r, db')"
    using loop by (cases "reorderLoop moduleIds 0 [] db") auto
  from reorderLoop_Inr [OF l di]
  have db': "db_modules db' = map (renumbered moduleIds 0) (db_modules db)" by simp
  have keep: "m_courseId (renumbered moduleIds 0 m) = m_courseId m" for m :: "'a moduleDoc"
    by (simp add: renumbered_def split: option.splits)
  have "moduleNumbers courseId db'
          = map (\<lambda>m. m_moduleNumber (renumbered moduleIds 0 m)) ?cms"
    by (simp add: moduleNumbers_def db' filter_map comp_def keep)
  also have "\<dots> = map (numberOf moduleIds)
                     (map m_id ?cms)"
  proof -
    have "m_moduleNumber (renumbered moduleIds 0 m) = numberOf moduleIds (m_id m)"
      if "m \<in> set ?cms" for m
    proof -
      from that sub have "m_id m \<in> set moduleIds" by auto
      then have "findIndex (\<lambda>y. y = m_id m) moduleIds \<noteq> None"
        by (simp add: findIndex_None_iff list_ex_iff)
      then show ?thesis by (auto simp: renumbered_def numberOf_def)
    qed
    then show ?thesis by (simp add: comp_def)
  qed
  finally have nums: "moduleNumbers courseId db'
      = map (numberOf moduleIds)
          (map m_id ?cms)" .
  have "mset (moduleNumbers courseId db')
          = image_mset (numberOf moduleIds) (mset (map m_id ?cms))"
    unfolding nums by (rule mset_map)
  also have "\<dots> = image_mset (numberOf moduleIds) (mset moduleIds)"
    by (simp only: perm)
  also have "\<dots> = mset (map (numberOf moduleIds) moduleIds)"
    by (rule mset_map [symmetric])
  also have "\<dots> = mset [1..<Suc (length moduleIds)]"
    by (rule renumbered_numbers [OF di])
  finally show "mset (moduleNumbers courseId (snd (reorderModules courseId moduleIds db)))
           = mset [1..<Suc (length moduleIds)]"
    by (simp add: res l)
  from nums len show "length (moduleNumbers courseId (snd (reorderModules courseId moduleIds db)))
           = length moduleIds"
    by (simp add: res l)
qed

text \<open>
  Claim C2, as stated, fails: the service checks that every listed id is a module of the
  course, not that every module of the course is listed. In the example course with the
  numbers 1 and 3, \<open>reorderModules\<close> with the list [A] returns normally and leaves the
  numbers 1 and 3, whether or not the unique index is enforced.
\<close>

theorem reorderModules_gapless_counterexample:
  "fst (reorderModules exCourse [exModuleA] (gapDb True)) = Inr [exModule exModuleA ''A'' 1 2 30]
   \<and> moduleNumbers exCourse (snd (reorderModules exCourse [exModuleA] (gapDb True))) = [1, 3]
   \<and> \<not> gapless (moduleNumbers exCourse (snd (reorderModules exCourse [exModuleA] (gapDb True))))
   \<and> fst (reorderModules exCourse [exModuleA] (gapDb False)) = Inr [exModule exModuleA ''A'' 1 2 30]
   \<and> \<not> gapless (moduleNumbers exCourse (snd (reorderModules exCourse [exModuleA] (gapDb False))))"
  by code_simp

text \<open>
  Claim C2, amended. When \<open>reorderModules\<close> returns and the list names every module of the
  course, the module numbers of the course are afterwards exactly 1..N, N the number of
  modules of the course. Module ids are unique in the collection.
\<close>

theorem reorderModules_gapless_when_all_named:
  "distinct (map m_id (db_modules db))
   \<and> fst (reorderModules courseId moduleIds db) = Inr r
   \<and> list_all (\<lambda>m. m_courseId m = courseId \<longrightarrow> m_id m \<in> set moduleIds) (db_modules db)
   \<longrightarrow> gapless (moduleNumbers courseId (snd (reorderModules courseId moduleIds db)))"
proof (intro impI, elim conjE)
  assume a: "distinct (map m_id (db_modules db))"
    "fst (reorderModules courseId moduleIds db) = Inr r"
    "list_all (\<lambda>m. m_courseId m = courseId \<longrightarrow> m_id m \<in> set moduleIds) (db_modules db)"
  let ?ns = "moduleNumbers courseId (snd (reorderModules courseId moduleIds db))"
  from reorderModules_all_named [OF a]
  have m: "mset ?ns = mset [1..<Suc (length moduleIds)]" and l: "length ?ns = length moduleIds"
    by simp_all
  have "sort ?ns = [1..<Suc (length moduleIds)]"
    by (rule properties_for_sort) (simp_all add: m del: upt_Suc)
  with l show "gapless ?ns" by (simp add: gapless_def)
qed

theorem reorderModules_gapless_witness:
  "fst (reorderModules exCourse [exModuleB, exModuleA] (gapDb False))
     = Inr [exModule exModuleB ''B'' 1 1 15, exModule exModuleA ''A'' 2 2 30]
   \<and> moduleNumbers exCourse (snd (reorderModules exCourse [exModuleB, exModuleA] (gapDb False)))
       = [2, 1]
   \<and> gapless (moduleNumbers exCourse
                 (snd (reorderModules exCourse [exModuleB, exModuleA] (gapDb False))))"
proof -
  have d: "distinct (map m_id (db_modules (gapDb False)))"
    by code_simp
  have ok: "fst (reorderModules exCourse [exModuleB, exModuleA] (gapDb False))
     = Inr [exModule exModuleB ''B'' 1 1 15, exModule exModuleA ''A'' 2 2 30]"
    by code_simp
  have named: "list_all (\<lambda>m. m_courseId m = exCourse \<longrightarrow> m_id m \<in> set [exModuleB, exModuleA])
                 (db_modules (gapDb False))"
    by code_simp
  have ns: "moduleNumbers exCourse
              (snd (reorderModules exCourse [exModuleB, exModuleA] (gapDb False))) = [2, 1]"
    by code_simp
  from reorderModules_gapless_when_all_named
         [of "gapDb False" exCourse "[exModuleB, exModuleA]"
             "[exModule exModuleB ''B'' 1 1 15, exModule exModuleA ''A'' 2 2 30]"]
       d ok named
  have "gapless (moduleNumbers exCourse
                   (snd (reorderModules exCourse [exModuleB, exModuleA] (gapDb False))))"
    by blast
  with ok ns show ?thesis by blast
qed

section \<open>Duplicating a module\<close>

text \<open>A lecture saved without a number is rejected, and nothing is stored.\<close>

lemma saveNewLecture_without_number:
  "\<exists>paths. saveNewLecture doc None db = (Inl (ValidationError paths), db)
            \<and> ''lectureNumber'' \<in> set paths"
proof -
  let ?doc1 = "doc\<lparr>l_title := trim (l_title doc), l_videoUrl := trim (l_videoUrl doc)\<rparr>"
  have m: "''lectureNumber'' \<in> set (lectureValidationErrors ?doc1 None)"
    by (simp add: lectureValidationErrors_def)
  then have "lectureValidationErrors ?doc1 None \<noteq> []" by auto
  then have "saveNewLecture doc None db
               = (Inl (ValidationError (lectureValidationErrors ?doc1 None)), db)"
    by (simp add: saveNewLecture_def Let_def)
  with m show ?thesis by blast
qed

text \<open>So the copy loop stores nothing, and throws as soon as there is a lecture to copy.\<close>

lemma copyLectures_stores_nothing:
  "snd (copyLectures newId k ls duplicatedId db) = db
   \<and> (ls = [] \<or> isl (fst (copyLectures newId k ls duplicatedId db)))"
proof (cases ls)
  case Nil
  then show ?thesis by simp
next
  case (Cons lecture rest)
  let ?doc = "\<lparr>l_id = newId k, l_title = l_title lecture, l_videoUrl = l_videoUrl lecture,
    l_duration = l_duration lecture, l_moduleId = duplicatedId, l_courseId = l_courseId lecture,
    l_lectureNumber = 0, l_pdfNotes = l_pdfNotes lecture, l_isActive = l_isActive lecture\<rparr>"
  from saveNewLecture_without_number [of ?doc db] obtain paths where
    "saveNewLecture ?doc None db = (Inl (ValidationError paths), db)" by blast
  with Cons show ?thesis by simp
qed

lemma saveNewModule_lectures [simp]:
  "db_lectures (snd (saveNewModule doc given db)) = db_lectures db"
  by (simp add: saveNewModule_def Let_def)

lemma duplicateModule_stores_no_lecture:
  "db_lectures (snd (duplicateModule newId moduleId db)) = db_lectures db"
proof (cases "find (\<lambda>m. m_id m = moduleId) (db_modules db)")
  case None
  then show ?thesis by (simp add: duplicateModule_def)
next
  case (Some originalModule)
  define n where "n = (case lastModuleNumber (m_courseId originalModule) db of
                         Some k \<Rightarrow> k + 1 | None \<Rightarrow> 1)"
  define saved where "saved = saveNewModule
      \<lparr>m_id = newId 0, m_title = m_title originalModule @ '' (Copy)'', m_moduleNumber = n,
       m_courseId = m_courseId originalModule, m_isActive = m_isActive originalModule,
       m_lectureCount = 0, m_totalDuration = 0\<rparr> (Some n) db"
  have l: "db_lectures (snd saved) = db_lectures db" by (simp add: saved_def)
  have c: "snd (copyLectures newId 1 ls d (snd saved)) = snd saved" for ls d
    using copyLectures_stores_nothing [of newId 1 ls d "snd saved"] by simp
  have "duplicateModule newId moduleId db =
          (case saved of
             (Inl e, db1) \<Rightarrow> (Inl e, db1)
           | (Inr duplicatedModule, db1) \<Rightarrow>
               (let originalLectures =
                      filter (\<lambda>l. l_moduleId l = m_id originalModule) (db_lectures db1)
                in case copyLectures newId 1 originalLectures (m_id duplicatedModule) db1 of
                     (Inl e, db2) \<Rightarrow> (Inl e, db2)
                   | (Inr u, db2) \<Rightarrow>
                       (Inr duplicatedModule,
                        case find (\<lambda>c. c_id c = m_courseId originalModule) (db_courses db2) of
                          None \<Rightarrow> db2
                        | Some course \<Rightarrow> snd (calculateStats (c_id course) db2))))"
    unfolding duplicateModule_def Some option.case Let_def n_def [symmetric] saved_def [symmetric]
    by (rule refl)
  note whole = this
  obtain r db1 where sv: "saved = (r, db1)" by (cases saved)
  from l sv have l1: "db_lectures db1 = db_lectures db" by simp
  show ?thesis
  proof (cases r)
    case (Inl e)
    with whole sv l1 show ?thesis by simp
  next
    case (Inr duplicatedModule)
    let ?ols = "filter (\<lambda>l. l_moduleId l = m_id originalModule) (db_lectures db1)"
    obtain f where cl: "copyLectures newId 1 ?ols (m_id duplicatedModule) db1 = (f, db1)"
      using c [of ?ols "m_id duplicatedModule"] sv
      by (cases "copyLectures newId 1 ?ols (m_id duplicatedModule) db1") simp
    show ?thesis
    proof (cases f)
      case (Inl e)
      with whole sv Inr cl l1 show ?thesis by (simp add: Let_def)
    next
      case (Inr u)
      with whole sv \<open>r = Inr duplicatedModule\<close> cl l1 show ?thesis
        by (simp add: Let_def split: option.splits)
    qed
  qed
qed

lemma duplicateModule_throws_when_lectures:
  assumes "find (\<lambda>m. m_id m = moduleId) (db_modules db) = Some originalModule"
    and "list_ex (\<lambda>l. l_moduleId l = moduleId) (db_lectures db)"
  shows "isl (fst (duplicateModule newId moduleId db))"
proof -
  from assms(1) have oid: "m_id originalModule = moduleId" by (auto simp: find_Some_iff)
  define n where "n = (case lastModuleNumber (m_courseId originalModule) db of
                         Some k \<Rightarrow> k + 1 | None \<Rightarrow> 1)"
  define saved where "saved = saveNewModule
      \<lparr>m_id = newId 0, m_title = m_title originalModule @ '' (Copy)'', m_moduleNumber = n,
       m_courseId = m_courseId originalModule, m_isActive = m_isActive originalModule,
       m_lectureCount = 0, m_totalDuration = 0\<rparr> (Some n) db"
  have l: "db_lectures (snd saved) = db_lectures db" by (simp add: saved_def)
  from assms(2) have ne: "filter (\<lambda>l. l_moduleId l = m_id originalModule) (db_lectures (snd saved)) \<noteq> []"
    by (simp add: l oid filter_empty_conv list_ex_iff)
  have c: "isl (fst (copyLectures newId 1
                  (filter (\<lambda>l. l_moduleId l = m_id originalModule) (db_lectures (snd saved))) d
                  (snd saved)))" for d
    using copyLectures_stores_nothing
            [of newId 1 "filter (\<lambda>l. l_moduleId l = m_id originalModule) (db_lectures (snd saved))"
                d "snd saved"] ne
    by simp
  have "duplicateModule newId moduleId db =
          (case saved of
             (Inl e, db1) \<Rightarrow> (Inl e, db1)
           | (Inr duplicatedModule, db1) \<Rightarrow>
               (let originalLectures =
                      filter (\<lambda>l. l_moduleId l = m_id originalModule) (db_lectures db1)
                in case copyLectures newId 1 originalLectures (m_id duplicatedModule) db1 of
                     (Inl e, db2) \<Rightarrow> (Inl e, db2)
                   | (Inr u, db2) \<Rightarrow>
                       (Inr duplicatedModule,
                        case find (\<lambda>c. c_id c = m_courseId originalModule) (db_courses db2) of
                          None \<Rightarrow> db2
                        | Some course \<Rightarrow> snd (calculateStats (c_id course) db2))))"
    unfolding duplicateModule_def assms(1) option.case Let_def n_def [symmetric] saved_def [symmetric]
    by (rule refl)
  note whole = this
  obtain r db1 where sv: "saved = (r, db1)" by (cases saved)
  show ?thesis
  proof (cases r)
    case (Inl e)
    with whole sv show ?thesis by simp
  next
    case (Inr duplicatedModule)
    let ?ols = "filter (\<lambda>l. l_moduleId l = m_id originalModule) (db_lectures db1)"
    from c [of "m_id duplicatedModule"] sv
    have "isl (fst (copyLectures newId 1 ?ols (m_id duplicatedModule) db1))" by simp
    then obtain e db2 where "copyLectures newId 1 ?ols (m_id duplicatedModule) db1 = (Inl e, db2)"
      by (cases "copyLectures newId 1 ?ols (m_id duplicatedModule) db1") (auto simp: isl_def)
    with whole sv Inr show ?thesis by (simp add: Let_def)
  qed
qed

text \<open>A title that " (Copy)" takes over 100 characters is rejected before anything is stored.\<close>

lemma duplicateModule_long_title:
  assumes "find (\<lambda>m. m_id m = moduleId) (db_modules db) = Some originalModule"
    and "100 < length (trim (m_title originalModule @ '' (Copy)''))"
  shows "duplicateModule newId moduleId db = (Inl (ValidationError [''title'']), db)"
proof -
  from assms(2) have "trim (m_title originalModule @ '' (Copy)'') \<noteq> []" by auto
  with assms show ?thesis
    by (simp add: duplicateModule_def saveNewModule_def moduleValidationErrors_def Let_def
        split: option.splits)
qed

text \<open>
  Claim C8 says that the lectures of the source module are copied into the new module.
  Module A of the example course has two lectures, both active and numbered 1 and 2:
  \<open>duplicateModule\<close> stores the new module "A (Copy)" with number 3 and then throws a
  \<open>ValidationError\<close> on \<open>lectureNumber\<close> at the first lecture, because the copy is built
  without a number and the schema requires one. No lecture is stored in the new module.
  This is so for every module and database: the operation never stores a lecture.
\<close>

theorem duplicateModule_copies_no_lecture:
  "fst (duplicateModule exNewId exModuleA exampleDb) = Inl (ValidationError [''lectureNumber''])
   \<and> map (\<lambda>m. (m_title m, m_moduleNumber m))
        (db_modules (snd (duplicateModule exNewId exModuleA exampleDb)))
       = [(''A'', 1), (''B'', 2), (''A (Copy)'', 3)]
   \<and> length (filter (\<lambda>l. l_moduleId l = exModuleA \<and> l_isActive l) (db_lectures exampleDb)) = 2
   \<and> filter (\<lambda>l. l_moduleId l = exNewId 0)
        (db_lectures (snd (duplicateModule exNewId exModuleA exampleDb))) = []
   \<and> db_lectures (snd (duplicateModule newId moduleId db)) = db_lectures db"
proof -
  have "fst (duplicateModule exNewId exModuleA exampleDb) = Inl (ValidationError [''lectureNumber''])"
    and "map (\<lambda>m. (m_title m, m_moduleNumber m))
        (db_modules (snd (duplicateModule exNewId exModuleA exampleDb)))
       = [(''A'', 1), (''B'', 2), (''A (Copy)'', 3)]"
    and "length (filter (\<lambda>l. l_moduleId l = exModuleA \<and> l_isActive l) (db_lectures exampleDb)) = 2"
    and "filter (\<lambda>l. l_moduleId l = exNewId 0)
        (db_lectures (snd (duplicateModule exNewId exModuleA exampleDb))) = []"
    by code_simp+
  then show ?thesis by (simp only: duplicateModule_stores_no_lecture simp_thms)
qed

end
